theory Spec2Isabelle
  imports Complex_Main "HOL-Library.Multiset" "HOL-Library.Log_Nat"
begin

section \<open>The air-quality predictor: data model\<close>

text \<open>
  The program \<^verbatim>\<open>aqi_predictor.cpp\<close> labels environmental samples with an air-quality
  level and a health-risk level by two fixed rules, and evaluates the rules against
  themselves with per-label precision, recall and F1.

  Numbers: a C++ \<^verbatim>\<open>double\<close> is modelled by the real number it holds. The
  arithmetic of the score and of the split size is binary64 arithmetic: every product
  and sum is rounded to nearest, ties to even (section Binary64 arithmetic), and the
  decimal literals and the numbers read from the input line are rounded the same way.
  The quotients of the metrics (precision, recall, F1, accuracy) are modelled by the
  exact quotients: the code's values are their roundings, and every test and branch of
  the code agrees with the model. The one division of the program whose divisor can be
  zero is modelled apart, with its IEEE result \<open>NaN\<close> (see \<open>accuracy\<close>).
  A C++ \<^verbatim>\<open>int\<close> is modelled by an \<open>int\<close>: the labels are only compared, and the
  counters count positions of a sequence, so they stay within 32 bits for every
  sequence of fewer than \<open>2^31\<close> labels.
\<close>

text \<open>\<^verbatim>\<open>struct Sample\<close>: nine input fields and the two derived labels.\<close>

record Sample =
  Temperature :: real
  Humidity :: real
  CO2 :: real
  PM2_5 :: real
  PM10 :: real
  NO2 :: real
  O3 :: real
  WindSpeed :: real
  CityType :: int
  AQI_Level :: int
  Health_Risk :: int

section \<open>Binary64 arithmetic\<close>

text \<open>
  The finite values of a \<^verbatim>\<open>double\<close> are real numbers, and every arithmetic operation
  returns the exact result rounded to the nearest binary64 number, ties to even:
  a significand of 53 bits, and below the smallest normal exponent \<open>-1022\<close> the fixed
  spacing \<open>2^-1074\<close> of the subnormal numbers. \<open>expo x\<close> is the binary exponent of \<open>x\<close>
  (not below \<open>-1022\<close>), \<open>ulp x\<close> the spacing of the binary64 numbers around \<open>x\<close>, and
  \<open>round64 x\<close> the multiple of \<open>ulp x\<close> nearest to \<open>x\<close>. The exponent has no upper limit
  here; the score of a sample whose fields are finite binary64 numbers stays below
  \<open>2^1024\<close> (lemma \<open>aqi_score_finite\<close>), so no operation of the program overflows.
\<close>

definition rne :: "real \<Rightarrow> int" where
  "rne x =
     (let f = \<lfloor>x\<rfloor>; d = x - of_int f in
      if d < 1 / 2 then f
      else if 1 / 2 < d then f + 1
      else if even f then f else f + 1)"

definition emin :: int where
  "emin = - 1022"

definition expo :: "real \<Rightarrow> int" where
  "expo x =
     (let y = \<bar>x\<bar> * 2 powi (- emin) in
      if y < 1 then emin else bitlen \<lfloor>y\<rfloor> - 1 + emin)"

definition ulp :: "real \<Rightarrow> real" where
  "ulp x = 2 powi (expo x - 52)"

definition round64 :: "real \<Rightarrow> real" where
  "round64 x = of_int (rne (x / ulp x)) * ulp x"

text \<open>Half the spacing of the subnormal numbers, \<open>2^-1075\<close>: the largest rounding error
  where the relative error bound \<open>2^-53\<close> does not apply.\<close>

definition tiny :: real where
  "tiny = 2 powi (emin - 53)"

text \<open>The product and the sum of two \<^verbatim>\<open>double\<close>s (no fused multiply-add).\<close>

definition fmul :: "real \<Rightarrow> real \<Rightarrow> real" where
  "fmul a b = round64 (a * b)"

definition fadd :: "real \<Rightarrow> real \<Rightarrow> real" where
  "fadd a b = round64 (a + b)"

section \<open>Labeling logic\<close>

text \<open>The local variable \<^verbatim>\<open>score\<close> of \<^verbatim>\<open>compute_aqi_level\<close>: the weighted sum of the
  four pollutant fields, as the expression
  \<^verbatim>\<open>0.3 * s.PM2_5 + 0.2 * s.PM10 + 0.1 * s.NO2 + 0.05 * s.O3\<close> is evaluated: four rounded
  products of a rounded literal and a field, added from left to right with a rounding
  after each sum.\<close>

definition aqi_score :: "Sample \<Rightarrow> real" where
  "aqi_score s =
     fadd (fadd (fadd (fmul (round64 0.3) (PM2_5 s)) (fmul (round64 0.2) (PM10 s)))
                (fmul (round64 0.1) (NO2 s)))
          (fmul (round64 0.05) (O3 s))"

definition compute_aqi_level :: "Sample \<Rightarrow> int" where
  "compute_aqi_level s =
     (let score = aqi_score s in
      if score < 50 then 0
      else if score < 100 then 1
      else if score < 200 then 2
      else 3)"

definition compute_health_risk :: "Sample \<Rightarrow> int" where
  "compute_health_risk s =
     (let aqi = AQI_Level s in
      if aqi = 0 then 0
      else if aqi = 1 then 1
      else if aqi = 2 \<and> CityType s = 1 then 2
      else (if aqi = 3 then 2
            else (if CityType s = 1 then 2 else 1)))"

section \<open>Metrics\<close>

text \<open>\<^verbatim>\<open>struct Metrics\<close>.\<close>

record Metrics =
  precision :: real
  recall :: real
  f1 :: real
  support :: int

text \<open>
  The first loop of \<^verbatim>\<open>compute_metrics_for_label\<close>: \<open>i\<close> runs over the positions of
  \<open>y_true\<close> and reads \<open>y_true[i]\<close> and \<open>y_pred[i]\<close>. The C++ subscript is unchecked,
  so reading \<open>y_pred\<close> past its end is undefined behaviour: the model returns \<open>None\<close>
  there.
\<close>

function count_loop ::
  "int list \<Rightarrow> int list \<Rightarrow> int \<Rightarrow> nat \<Rightarrow> int \<times> int \<times> int \<Rightarrow> (int \<times> int \<times> int) option" where
  "count_loop y_true y_pred label i (tp, fp, fn) =
     (if i < length y_true then
        (if i < length y_pred then
           (let t = (y_true ! i = label);
                p = (y_pred ! i = label);
                tp' = (if t \<and> p then tp + 1 else tp);
                fp' = (if \<not> t \<and> p then fp + 1 else fp);
                fn' = (if t \<and> \<not> p then fn + 1 else fn)
            in count_loop y_true y_pred label (i + 1) (tp', fp', fn'))
         else None)
      else Some (tp, fp, fn))"
  by pat_completeness auto
termination
  by (relation "measure (\<lambda>(y_true, y_pred, label, i, c). length y_true - i)") auto

declare count_loop.simps [simp del]

text \<open>The second loop: the range-based \<^verbatim>\<open>for\<close> over \<open>y_true\<close> that counts the support.\<close>

definition support_loop :: "int list \<Rightarrow> int \<Rightarrow> int" where
  "support_loop y_true label = fold (\<lambda>v n. if v = label then n + 1 else n) y_true 0"

definition compute_metrics_for_label :: "int list \<Rightarrow> int list \<Rightarrow> int \<Rightarrow> Metrics option" where
  "compute_metrics_for_label y_true y_pred label =
     (case count_loop y_true y_pred label 0 (0, 0, 0) of
        None \<Rightarrow> None
      | Some (tp, fp, fn) \<Rightarrow>
          (let sup = support_loop y_true label;
               p = (if tp + fp \<noteq> 0 then real_of_int tp / real_of_int (tp + fp) else 0);
               r = (if tp + fn \<noteq> 0 then real_of_int tp / real_of_int (tp + fn) else 0);
               f = (if p + r \<noteq> 0 then 2 * p * r / (p + r) else 0)
           in Some \<lparr>precision = p, recall = r, f1 = f, support = sup\<rparr>))"

subsection \<open>Overall accuracy\<close>

text \<open>
  The accuracy is computed inline in \<^verbatim>\<open>main\<close>, once per label space: a counting
  loop, then \<^verbatim>\<open>(double)correct / y_true.size()\<close> with no test of the divisor. The
  result of an IEEE division by (positive) zero is not a real number, so the quotient
  is a value of its own type.
\<close>

datatype double_result = Finite real | PosInf | NegInf | NaN

definition double_div :: "real \<Rightarrow> real \<Rightarrow> double_result" where
  "double_div x y =
     (if y \<noteq> 0 then Finite (x / y)
      else if x = 0 then NaN
      else if 0 < x then PosInf
      else NegInf)"

function correct_loop :: "int list \<Rightarrow> int list \<Rightarrow> nat \<Rightarrow> int \<Rightarrow> int option" where
  "correct_loop y_true y_pred i correct =
     (if i < length y_true then
        (if i < length y_pred then
           correct_loop y_true y_pred (i + 1)
             (if y_true ! i = y_pred ! i then correct + 1 else correct)
         else None)
      else Some correct)"
  by pat_completeness auto
termination
  by (relation "measure (\<lambda>(y_true, y_pred, i, c). length y_true - i)") auto

declare correct_loop.simps [simp del]

definition accuracy :: "int list \<Rightarrow> int list \<Rightarrow> double_result option" where
  "accuracy y_true y_pred =
     (case correct_loop y_true y_pred 0 0 of
        None \<Rightarrow> None
      | Some correct \<Rightarrow> Some (double_div (real_of_int correct) (real (length y_true))))"

section \<open>Main flow\<close>

subsection \<open>Dataset generation, shuffle and split\<close>

text \<open>
  The random generator is an input of the model: \<open>draw i\<close> is the \<open>i\<close>-th sample as the
  generation loop has it after the nine random fields are assigned (its two label
  fields are still uninitialised, so they hold any value), and \<open>perm\<close> is the
  permutation that \<^verbatim>\<open>std::shuffle\<close> applies, as the list of the source positions.
\<close>

definition N :: nat where
  "N = 1500"

text \<open>The two labeling statements that follow the assignment of the input fields,
  in the generation loop and again for the interactive sample.\<close>

definition label_sample :: "Sample \<Rightarrow> Sample" where
  "label_sample s =
     (let s1 = s\<lparr>AQI_Level := compute_aqi_level s\<rparr>
      in s1\<lparr>Health_Risk := compute_health_risk s1\<rparr>)"

definition generate :: "(nat \<Rightarrow> Sample) \<Rightarrow> Sample list" where
  "generate draw = map (\<lambda>i. label_sample (draw i)) [0..<N]"

definition shuffle_by :: "nat list \<Rightarrow> 'a list \<Rightarrow> 'a list" where
  "shuffle_by perm xs = map (\<lambda>i. xs ! i) perm"

definition train_size :: nat where
  "train_size = nat \<lfloor>fmul (round64 0.8) (real N)\<rfloor>"

definition shuffled :: "(nat \<Rightarrow> Sample) \<Rightarrow> nat list \<Rightarrow> Sample list" where
  "shuffled draw perm = shuffle_by perm (generate draw)"

definition train :: "(nat \<Rightarrow> Sample) \<Rightarrow> nat list \<Rightarrow> Sample list" where
  "train draw perm = take train_size (shuffled draw perm)"

definition test :: "(nat \<Rightarrow> Sample) \<Rightarrow> nat list \<Rightarrow> Sample list" where
  "test draw perm = drop train_size (shuffled draw perm)"

subsection \<open>Evaluation of the predictor on the test partition\<close>

text \<open>The ground truth is read from the stored labels; the prediction applies the two
  rule functions again.\<close>

definition y_true_aqi :: "Sample list \<Rightarrow> int list" where
  "y_true_aqi ts = map AQI_Level ts"

definition y_pred_aqi :: "Sample list \<Rightarrow> int list" where
  "y_pred_aqi ts = map compute_aqi_level ts"

definition y_true_hr :: "Sample list \<Rightarrow> int list" where
  "y_true_hr ts = map Health_Risk ts"

definition y_pred_hr :: "Sample list \<Rightarrow> int list" where
  "y_pred_hr ts = map compute_health_risk ts"

record Report =
  acc_aqi :: "double_result option"
  acc_hr :: "double_result option"
  aqi_rows :: "Metrics option list"
  hr_rows :: "Metrics option list"

definition evaluate :: "Sample list \<Rightarrow> Report" where
  "evaluate ts =
     \<lparr>acc_aqi = accuracy (y_true_aqi ts) (y_pred_aqi ts),
      acc_hr = accuracy (y_true_hr ts) (y_pred_hr ts),
      aqi_rows = map (compute_metrics_for_label (y_true_aqi ts) (y_pred_aqi ts)) [0, 1, 2, 3],
      hr_rows = map (compute_metrics_for_label (y_true_hr ts) (y_pred_hr ts)) [0, 1, 2]\<rparr>"

subsection \<open>Interactive single-sample prediction\<close>

text \<open>
  Standard input is the list of its lines. \<^verbatim>\<open>getline\<close> gives the next line, and the
  empty string once the input is exhausted. The program reads one line and, when that
  line is empty, one more.
\<close>

fun getline :: "string list \<Rightarrow> string \<times> string list" where
  "getline [] = ([], [])"
| "getline (l # ls) = (l, ls)"

definition read_input_line :: "string list \<Rightarrow> string" where
  "read_input_line input =
     (let (line, rest) = getline input
      in if line = [] then fst (getline rest) else line)"

text \<open>The demo values, assigned in both branches that set \<^verbatim>\<open>use_demo\<close>.\<close>

definition demo_sample :: "Sample \<Rightarrow> Sample" where
  "demo_sample s =
     s\<lparr>Temperature := 33, Humidity := 65, CO2 := 550, PM2_5 := 150, PM10 := 180,
       NO2 := 80, O3 := 60, WindSpeed := 3.5, CityType := 1\<rparr>"

text \<open>
  \<open>extract\<close> stands for the chained stream extraction
  \<^verbatim>\<open>iss >> s.Temperature >> ... >> s.CityType\<close> of the C++ library: \<open>None\<close> when the
  stream ends up failed, otherwise the sample with its nine input fields assigned.
  \<open>s0\<close> is the uninitialised \<^verbatim>\<open>Sample s\<close>.
\<close>

definition interactive_sample ::
  "(string \<Rightarrow> Sample \<Rightarrow> Sample option) \<Rightarrow> string list \<Rightarrow> Sample \<Rightarrow> Sample" where
  "interactive_sample extract input s0 =
     (let line = read_input_line input;
          s = (if line = ''demo'' then demo_sample s0
               else (case extract line s0 of
                       None \<Rightarrow> demo_sample s0
                     | Some s' \<Rightarrow> s'))
      in label_sample s)"

definition AQI_labels :: "string list" where
  "AQI_labels = [''Good'', ''Moderate'', ''Unhealthy'', ''Hazardous'']"

definition HR_labels :: "string list" where
  "HR_labels = [''Low'', ''Medium'', ''High'']"

text \<open>Reading a C array outside its bounds is undefined behaviour: \<open>None\<close>.\<close>

definition label_name :: "string list \<Rightarrow> int \<Rightarrow> string option" where
  "label_name names k = (if 0 \<le> k \<and> nat k < length names then Some (names ! nat k) else None)"

record Prediction =
  aqi_level :: int
  aqi_name :: string
  health_risk :: int
  health_name :: string

definition interactive ::
  "(string \<Rightarrow> Sample \<Rightarrow> Sample option) \<Rightarrow> string list \<Rightarrow> Sample \<Rightarrow> Prediction option" where
  "interactive extract input s0 =
     (let s = interactive_sample extract input s0 in
      case label_name AQI_labels (AQI_Level s) of
        None \<Rightarrow> None
      | Some a \<Rightarrow>
          (case label_name HR_labels (Health_Risk s) of
             None \<Rightarrow> None
           | Some h \<Rightarrow>
               Some \<lparr>aqi_level = AQI_Level s, aqi_name = a,
                     health_risk = Health_Risk s, health_name = h\<rparr>))"

subsection \<open>Formatted extraction of the nine fields\<close>

text \<open>
  A model of what the C++ library does for
  \<^verbatim>\<open>iss >> double >> ... >> double >> int\<close> on decimal input in the classic locale.
  Each extraction skips leading white space and then consumes the longest prefix that
  has the shape of a number: an optional sign, digits with an optional fraction, and
  for a \<^verbatim>\<open>double\<close> an optional exponent. It fails when no digit is found, when an
  exponent mark is followed by no digit, or when the value is out of the range of the
  type; a failed extraction fails the whole chain. What follows the ninth value is
  never read. The value of a \<^verbatim>\<open>double\<close> is its decimal text rounded to binary64.
\<close>

definition isspace :: "char \<Rightarrow> bool" where
  "isspace c = (c \<in> set [CHR '' '', CHR 0x09, CHR 0x0A, CHR 0x0B, CHR 0x0C, CHR 0x0D])"

definition isdigit :: "char \<Rightarrow> bool" where
  "isdigit c = (c \<in> set ''0123456789'')"

definition digit_val :: "char \<Rightarrow> nat" where
  "digit_val c = of_char c - 48"

definition digits_val :: "string \<Rightarrow> nat" where
  "digits_val ds = foldl (\<lambda>n c. 10 * n + digit_val c) 0 ds"

fun take_sign :: "string \<Rightarrow> bool \<times> string" where
  "take_sign [] = (False, [])"
| "take_sign (c # cs) =
     (if c = CHR ''-'' then (True, cs)
      else if c = CHR ''+'' then (False, cs)
      else (False, c # cs))"

fun take_fraction :: "string \<Rightarrow> string \<times> string" where
  "take_fraction [] = ([], [])"
| "take_fraction (c # cs) =
     (if c = CHR ''.'' then (takeWhile isdigit cs, dropWhile isdigit cs) else ([], c # cs))"

fun take_exponent :: "string \<Rightarrow> (int \<times> string) option" where
  "take_exponent [] = Some (0, [])"
| "take_exponent (c # cs) =
     (if c = CHR ''e'' \<or> c = CHR ''E'' then
        (let (neg, r) = take_sign cs; ds = takeWhile isdigit r in
         if ds = [] then None
         else Some (if neg then - int (digits_val ds) else int (digits_val ds),
                    dropWhile isdigit r))
      else Some (0, c # cs))"

definition scale10 :: "real \<Rightarrow> int \<Rightarrow> real" where
  "scale10 x e = (if 0 \<le> e then x * 10 ^ nat e else x / 10 ^ nat (- e))"

text \<open>A magnitude of \<open>2^1024 - 2^970\<close> or more rounds to infinity in binary64: the
  extraction reports a failure.\<close>

definition extract_double :: "string \<Rightarrow> (real \<times> string) option" where
  "extract_double cs =
     (let (neg, r0) = take_sign (dropWhile isspace cs);
          ip = takeWhile isdigit r0;
          (fp, r2) = take_fraction (dropWhile isdigit r0)
      in if ip @ fp = [] then None
         else (case take_exponent r2 of
                 None \<Rightarrow> None
               | Some (e, r3) \<Rightarrow>
                   (let m = scale10 (real (digits_val (ip @ fp))) (e - int (length fp));
                        v = (if neg then - m else m)
                    in if 2 ^ 1024 - 2 ^ 970 \<le> \<bar>v\<bar> then None
                       else Some (round64 v, r3))))"

definition extract_int :: "string \<Rightarrow> (int \<times> string) option" where
  "extract_int cs =
     (let (neg, r0) = take_sign (dropWhile isspace cs);
          ds = takeWhile isdigit r0;
          v = (if neg then - int (digits_val ds) else int (digits_val ds))
      in if ds = [] \<or> v < - (2 ^ 31) \<or> 2 ^ 31 - 1 < v then None
         else Some (v, dropWhile isdigit r0))"

definition extract_sample :: "string \<Rightarrow> Sample \<Rightarrow> Sample option" where
  "extract_sample line s =
     Option.bind (extract_double line) (\<lambda>(temperature, r).
     Option.bind (extract_double r) (\<lambda>(humidity, r).
     Option.bind (extract_double r) (\<lambda>(co2, r).
     Option.bind (extract_double r) (\<lambda>(pm2_5, r).
     Option.bind (extract_double r) (\<lambda>(pm10, r).
     Option.bind (extract_double r) (\<lambda>(no2, r).
     Option.bind (extract_double r) (\<lambda>(o3, r).
     Option.bind (extract_double r) (\<lambda>(wind, r).
     Option.bind (extract_int r) (\<lambda>(city, r).
       Some (s\<lparr>Temperature := temperature, Humidity := humidity, CO2 := co2,
               PM2_5 := pm2_5, PM10 := pm10, NO2 := no2, O3 := o3,
               WindSpeed := wind, CityType := city\<rparr>))))))))))"

section \<open>The properties, in the words of the specification\<close>

text \<open>The weighted sum of the pollutant fields in exact arithmetic.\<close>

definition weighted_sum :: "Sample \<Rightarrow> real" where
  "weighted_sum s = 0.3 * PM2_5 s + 0.2 * PM10 s + 0.1 * NO2 s + 0.05 * O3 s"

text \<open>Counts over the positions of a pair of label sequences.\<close>

definition count_where :: "(int \<Rightarrow> int \<Rightarrow> bool) \<Rightarrow> int list \<Rightarrow> int list \<Rightarrow> int" where
  "count_where P y_true y_pred = int (length (filter (\<lambda>(t, p). P t p) (zip y_true y_pred)))"

definition true_positives :: "int list \<Rightarrow> int list \<Rightarrow> int \<Rightarrow> int" where
  "true_positives y_true y_pred label =
     count_where (\<lambda>t p. t = label \<and> p = label) y_true y_pred"

definition false_positives :: "int list \<Rightarrow> int list \<Rightarrow> int \<Rightarrow> int" where
  "false_positives y_true y_pred label =
     count_where (\<lambda>t p. t \<noteq> label \<and> p = label) y_true y_pred"

definition false_negatives :: "int list \<Rightarrow> int list \<Rightarrow> int \<Rightarrow> int" where
  "false_negatives y_true y_pred label =
     count_where (\<lambda>t p. t = label \<and> p \<noteq> label) y_true y_pred"

definition support_count :: "int list \<Rightarrow> int \<Rightarrow> int" where
  "support_count y_true label = int (length (filter (\<lambda>v. v = label) y_true))"

text \<open>A quotient that is 0 when its denominator is 0, and the F1 formula with the same
  convention.\<close>

definition ratio :: "int \<Rightarrow> int \<Rightarrow> real" where
  "ratio a b = (if b = 0 then 0 else real_of_int a / real_of_int b)"

definition harmonic :: "real \<Rightarrow> real \<Rightarrow> real" where
  "harmonic p r = (if p + r = 0 then 0 else 2 * p * r / (p + r))"

text \<open>A sample is labelled by the rules when its stored labels are the values of the
  two rule functions on it.\<close>

definition labelled :: "Sample \<Rightarrow> bool" where
  "labelled s = (AQI_Level s = compute_aqi_level s \<and> Health_Risk s = compute_health_risk s)"

text \<open>The fields of a line: its maximal runs of characters that are not white space.\<close>

fun split_fields :: "string \<Rightarrow> string \<Rightarrow> string list" where
  "split_fields cur [] = (if cur = [] then [] else [cur])"
| "split_fields cur (c # cs) =
     (if isspace c then (if cur = [] then split_fields [] cs else cur # split_fields [] cs)
      else split_fields (cur @ [c]) cs)"

definition fields :: "string \<Rightarrow> string list" where
  "fields line = split_fields [] line"

text \<open>Concrete inputs for the closed theorems: a sample whose memory is all zero, and
  a generator that draws the demo values every time.\<close>

definition zero_sample :: Sample where
  "zero_sample =
     \<lparr>Temperature = 0, Humidity = 0, CO2 = 0, PM2_5 = 0, PM10 = 0, NO2 = 0, O3 = 0,
      WindSpeed = 0, CityType = 0, AQI_Level = 0, Health_Risk = 0\<rparr>"

definition constant_draw :: "nat \<Rightarrow> Sample" where
  "constant_draw i = demo_sample zero_sample"

section \<open>Binary64 rounding\<close>

subsection \<open>Rounding to the nearest integer, ties to even\<close>

lemma rne_of_int [simp]: "rne (of_int k) = k"
  by (simp add: rne_def)

lemma rne_bounds: "\<lfloor>x\<rfloor> \<le> rne x" "rne x \<le> \<lfloor>x\<rfloor> + 1"
  by (simp_all add: rne_def Let_def)

lemma rne_mono: "x \<le> y \<Longrightarrow> rne x \<le> rne y"
proof -
  assume le: "x \<le> y"
  have fl: "\<lfloor>x\<rfloor> \<le> \<lfloor>y\<rfloor>" using le by (rule floor_mono)
  show ?thesis
  proof (cases "\<lfloor>x\<rfloor> = \<lfloor>y\<rfloor>")
    case True
    then have "x - of_int \<lfloor>x\<rfloor> \<le> y - of_int \<lfloor>y\<rfloor>" using le by simp
    then show ?thesis
      using True by (auto simp: rne_def Let_def)
  next
    case False
    then have "\<lfloor>x\<rfloor> + 1 \<le> \<lfloor>y\<rfloor>" using fl by simp
    then show ?thesis
      using rne_bounds(2) [of x] rne_bounds(1) [of y] by linarith
  qed
qed

lemma rne_error: "\<bar>of_int (rne x) - x\<bar> \<le> 1 / 2"
proof -
  have a: "of_int \<lfloor>x\<rfloor> \<le> x" and b: "x < of_int \<lfloor>x\<rfloor> + 1" by linarith+
  consider "x - of_int \<lfloor>x\<rfloor> < 1 / 2" | "1 / 2 < x - of_int \<lfloor>x\<rfloor>" | "x - of_int \<lfloor>x\<rfloor> = 1 / 2"
    by linarith
  then show ?thesis
  proof cases
    case 1
    then have "rne x = \<lfloor>x\<rfloor>" by (simp add: rne_def Let_def)
    then show ?thesis using a 1 by simp
  next
    case 2
    then have "rne x = \<lfloor>x\<rfloor> + 1" by (simp add: rne_def Let_def)
    then show ?thesis using b 2 by simp
  next
    case 3
    then have "rne x = \<lfloor>x\<rfloor> \<or> rne x = \<lfloor>x\<rfloor> + 1" by (simp add: rne_def Let_def)
    then show ?thesis using 3 by auto
  qed
qed

subsection \<open>The exponent and the rounding\<close>

lemma floorlog_pos: "1 \<le> y \<Longrightarrow> 0 < floorlog 2 (nat \<lfloor>y\<rfloor>)" for y :: real
proof -
  assume "1 \<le> y"
  then have "1 \<le> \<lfloor>y\<rfloor>" by simp
  then show ?thesis by (simp add: floorlog_def)
qed

lemma expo_ge: "emin \<le> expo x"
  using floorlog_pos [of "\<bar>x\<bar> * 2 powi (- emin)"]
  by (auto simp: expo_def Let_def bitlen_def)

lemma expo_bounds:
  assumes "2 powi emin \<le> \<bar>x\<bar>"
  shows "2 powi expo x \<le> \<bar>x\<bar>" and "\<bar>x\<bar> < 2 powi (expo x + 1)"
proof -
  define y where "y = \<bar>x\<bar> * 2 powi (- emin)"
  define n where "n = nat \<lfloor>y\<rfloor>"
  have xy: "\<bar>x\<bar> = y * 2 powi emin"
    by (simp add: y_def power_int_minus)
  have y1: "1 \<le> y"
  proof -
    have "2 powi emin * 2 powi (- emin) \<le> \<bar>x\<bar> * (2 powi (- emin) :: real)"
      using assms by (intro mult_right_mono) auto
    then show ?thesis by (simp add: y_def power_int_minus)
  qed
  then have n0: "0 < n" by (simp add: n_def)
  have e: "expo x = int (floorlog 2 n) - 1 + emin"
    using y1 by (simp add: expo_def y_def n_def Let_def bitlen_def)
  have fl: "1 \<le> floorlog 2 n"
    using n0 by (simp add: floorlog_def)
  from floorlog_bounds [of n 2] n0
  have b: "2 ^ (floorlog 2 n - 1) \<le> n" "n < 2 ^ floorlog 2 n" by simp_all
  have ny: "real n \<le> y" "y < real n + 1"
    using y1 by (simp_all add: n_def)
  have lo: "2 ^ (floorlog 2 n - 1) \<le> y"
  proof -
    have "real (2 ^ (floorlog 2 n - 1)) \<le> real n" using b(1) by (rule of_nat_mono)
    then have "(2::real) ^ (floorlog 2 n - 1) \<le> real n" by simp
    then show ?thesis using ny(1) by linarith
  qed
  have hi: "y < 2 ^ floorlog 2 n"
  proof -
    have "n + 1 \<le> 2 ^ floorlog 2 n" using b(2) by simp
    then have "real (n + 1) \<le> real (2 ^ floorlog 2 n)" by (rule of_nat_mono)
    then have "real n + 1 \<le> (2::real) ^ floorlog 2 n" by simp
    then show ?thesis using ny(2) by linarith
  qed
  have p1: "(2::real) powi expo x = 2 ^ (floorlog 2 n - 1) * 2 powi emin"
  proof -
    have "expo x = int (floorlog 2 n - 1) + emin" using e fl by simp
    then show ?thesis by (simp add: power_int_add)
  qed
  have p2: "(2::real) powi (expo x + 1) = 2 ^ floorlog 2 n * 2 powi emin"
  proof -
    have "expo x + 1 = int (floorlog 2 n) + emin" using e by simp
    then show ?thesis by (simp add: power_int_add)
  qed
  show "2 powi expo x \<le> \<bar>x\<bar>"
    unfolding p1 xy using lo by (intro mult_right_mono) auto
  show "\<bar>x\<bar> < 2 powi (expo x + 1)"
    unfolding p2 xy using hi by (intro mult_strict_right_mono) auto
qed

lemma expo_upper: "\<bar>x\<bar> < 2 powi (expo x + 1)"
proof (cases "2 powi emin \<le> \<bar>x\<bar>")
  case True
  then show ?thesis by (rule expo_bounds(2))
next
  case False
  then have lt: "\<bar>x\<bar> < 2 powi emin" by simp
  have "(2::real) powi emin \<le> 2 powi (expo x + 1)"
    using expo_ge [of x] by (intro power_int_increasing) auto
  then show ?thesis using lt by linarith
qed

lemma expo_subnormal: "\<bar>x\<bar> < 2 powi emin \<Longrightarrow> expo x = emin"
proof -
  assume lt: "\<bar>x\<bar> < 2 powi emin"
  have "\<bar>x\<bar> * 2 powi (- emin) < 2 powi emin * (2 powi (- emin) :: real)"
    using lt by (intro mult_strict_right_mono) auto
  then have "\<bar>x\<bar> * 2 powi (- emin) < 1" by (simp add: power_int_minus)
  then show ?thesis by (simp add: expo_def Let_def)
qed

lemma powi2_less_cancel: "(2::real) powi a < 2 powi b \<Longrightarrow> a < b"
  by (metis linorder_not_less one_le_numeral power_int_increasing)

lemma expo_eqI:
  assumes "emin \<le> k" and "2 powi k \<le> \<bar>x\<bar>" and "\<bar>x\<bar> < 2 powi (k + 1)"
  shows "expo x = k"
proof -
  have "(2::real) powi emin \<le> 2 powi k"
    using assms(1) by (intro power_int_increasing) auto
  then have n: "2 powi emin \<le> \<bar>x\<bar>" using assms(2) by linarith
  note b = expo_bounds [OF n]
  have "(2::real) powi k < 2 powi (expo x + 1)" using assms(2) b(2) by linarith
  then have "k < expo x + 1" by (rule powi2_less_cancel)
  moreover have "(2::real) powi expo x < 2 powi (k + 1)" using assms(3) b(1) by linarith
  then have "expo x < k + 1" by (rule powi2_less_cancel)
  ultimately show ?thesis by simp
qed

lemma expo_mono: "\<bar>x\<bar> \<le> \<bar>y\<bar> \<Longrightarrow> expo x \<le> expo y"
proof -
  assume le: "\<bar>x\<bar> \<le> \<bar>y\<bar>"
  show ?thesis
  proof (cases "2 powi emin \<le> \<bar>x\<bar>")
    case False
    then have "expo x = emin" by (simp add: expo_subnormal)
    then show ?thesis using expo_ge [of y] by simp
  next
    case True
    then have ny: "2 powi emin \<le> \<bar>y\<bar>" using le by linarith
    have "2 powi expo x \<le> \<bar>x\<bar>" using True by (rule expo_bounds(1))
    also have "\<dots> \<le> \<bar>y\<bar>" by (rule le)
    also have "\<dots> < 2 powi (expo y + 1)" by (rule expo_upper)
    finally have "expo x < expo y + 1" by (rule powi2_less_cancel)
    then show ?thesis by simp
  qed
qed


lemma ulp_pos: "0 < ulp x"
  by (simp add: ulp_def)

lemma ulp_top: "of_int (2 ^ 53) * ulp x = 2 powi (expo x + 1)"
proof -
  have e: "expo x + 1 = 53 + (expo x - 52)" by simp
  have "(2::real) powi (53 + (expo x - 52)) = 2 powi 53 * 2 powi (expo x - 52)"
    by (rule power_int_add) simp
  moreover have "(2::real) powi 53 = of_int (2 ^ 53)" by simp
  ultimately show ?thesis unfolding e ulp_def by simp
qed

lemma ulp_bottom: "of_int (2 ^ 52) * ulp x = 2 powi expo x"
proof -
  have e: "expo x = 52 + (expo x - 52)" by simp
  have "(2::real) powi (52 + (expo x - 52)) = 2 powi 52 * 2 powi (expo x - 52)"
    by (rule power_int_add) simp
  moreover have "(2::real) powi 52 = of_int (2 ^ 52)" by simp
  ultimately have "of_int (2 ^ 52) * 2 powi (expo x - 52) = (2::real) powi (52 + (expo x - 52))"
    by simp
  then show ?thesis unfolding ulp_def using e by simp
qed

lemma round64_le:
  assumes "x \<le> of_int m * ulp x"
  shows "round64 x \<le> of_int m * ulp x"
proof -
  have "x / ulp x \<le> of_int m"
    using assms ulp_pos [of x] by (simp add: field_simps)
  then have "rne (x / ulp x) \<le> rne (of_int m)" by (rule rne_mono)
  then have "rne (x / ulp x) \<le> m" by simp
  then have "real_of_int (rne (x / ulp x)) \<le> of_int m" by simp
  then show ?thesis
    unfolding round64_def using ulp_pos [of x] by (intro mult_right_mono) auto
qed

lemma round64_ge:
  assumes "of_int m * ulp x \<le> x"
  shows "of_int m * ulp x \<le> round64 x"
proof -
  have "of_int m \<le> x / ulp x"
    using assms ulp_pos [of x] by (simp add: field_simps)
  then have "rne (of_int m) \<le> rne (x / ulp x)" by (rule rne_mono)
  then have "m \<le> rne (x / ulp x)" by simp
  then have "real_of_int m \<le> of_int (rne (x / ulp x))" by simp
  then show ?thesis
    unfolding round64_def using ulp_pos [of x] by (intro mult_right_mono) auto
qed

lemma round64_upper: "round64 x \<le> 2 powi (expo x + 1)"
proof -
  have "x \<le> \<bar>x\<bar>" by simp
  also have "\<dots> < 2 powi (expo x + 1)" by (rule expo_upper)
  finally have a: "x \<le> 2 powi (expo x + 1)" by simp
  have "x \<le> of_int (2 ^ 53) * ulp x" unfolding ulp_top by (rule a)
  then have "round64 x \<le> of_int (2 ^ 53) * ulp x" by (rule round64_le)
  then show ?thesis unfolding ulp_top .
qed

lemma round64_lower: "- (2 powi (expo x + 1)) \<le> round64 x"
proof -
  have a: "- (2 powi (expo x + 1)) \<le> x" using expo_upper [of x] by linarith
  have m: "real_of_int (- (2 ^ 53)) * ulp x = - (of_int (2 ^ 53) * ulp x)" by simp
  have "of_int (- (2 ^ 53)) * ulp x \<le> x" unfolding m ulp_top by (rule a)
  then have "of_int (- (2 ^ 53)) * ulp x \<le> round64 x" by (rule round64_ge)
  then show ?thesis unfolding m ulp_top .
qed

lemma powi_emin_pos: "0 < (2::real) powi emin"
  by simp

lemma round64_normal_pos:
  assumes "2 powi emin \<le> x"
  shows "2 powi expo x \<le> round64 x"
proof -
  have "0 < x" using assms powi_emin_pos by linarith
  then have ax: "\<bar>x\<bar> = x" by simp
  have "2 powi emin \<le> \<bar>x\<bar>" using assms ax by simp
  then have "2 powi expo x \<le> \<bar>x\<bar>" by (rule expo_bounds(1))
  then have a: "2 powi expo x \<le> x" using ax by simp
  have "of_int (2 ^ 52) * ulp x \<le> x" unfolding ulp_bottom by (rule a)
  then have "of_int (2 ^ 52) * ulp x \<le> round64 x" by (rule round64_ge)
  then show ?thesis unfolding ulp_bottom .
qed

lemma round64_normal_neg:
  assumes "x \<le> - (2 powi emin)"
  shows "round64 x \<le> - (2 powi expo x)"
proof -
  have "x < 0" using assms powi_emin_pos by linarith
  then have ax: "\<bar>x\<bar> = - x" by simp
  have "2 powi emin \<le> \<bar>x\<bar>" using assms ax by simp
  then have "2 powi expo x \<le> \<bar>x\<bar>" by (rule expo_bounds(1))
  then have a: "x \<le> - (2 powi expo x)" using ax by simp
  have m: "real_of_int (- (2 ^ 52)) * ulp x = - (of_int (2 ^ 52) * ulp x)" by simp
  have "x \<le> of_int (- (2 ^ 52)) * ulp x" unfolding m ulp_bottom by (rule a)
  then have "round64 x \<le> of_int (- (2 ^ 52)) * ulp x" by (rule round64_le)
  then show ?thesis unfolding m ulp_bottom .
qed

lemma round64_mono:
  assumes "x \<le> y"
  shows "round64 x \<le> round64 y"
proof -
  consider "expo x = expo y" | "expo x < expo y" | "expo y < expo x" by linarith
  then show ?thesis
  proof cases
    case 1
    then have u: "ulp x = ulp y" by (simp add: ulp_def)
    have "x / ulp y \<le> y / ulp y"
      using assms ulp_pos [of y] by (simp add: divide_right_mono)
    then have "rne (x / ulp y) \<le> rne (y / ulp y)" by (rule rne_mono)
    then have "real_of_int (rne (x / ulp y)) \<le> of_int (rne (y / ulp y))" by simp
    then show ?thesis
      unfolding round64_def u using ulp_pos [of y] by (intro mult_right_mono) auto
  next
    case 2
    have "\<not> \<bar>y\<bar> \<le> \<bar>x\<bar>" using 2 expo_mono [of y x] by auto
    then have y: "0 < y" "\<bar>y\<bar> = y" using assms by auto
    have "\<not> \<bar>y\<bar> < 2 powi emin"
      using 2 expo_subnormal [of y] expo_ge [of x] by auto
    then have ny: "2 powi emin \<le> y" using y by simp
    have "round64 x \<le> 2 powi (expo x + 1)" by (rule round64_upper)
    also have "\<dots> \<le> 2 powi expo y" using 2 by (intro power_int_increasing) auto
    also have "\<dots> \<le> round64 y" using ny by (rule round64_normal_pos)
    finally show ?thesis .
  next
    case 3
    have "\<not> \<bar>x\<bar> \<le> \<bar>y\<bar>" using 3 expo_mono [of x y] by auto
    then have x: "x < 0" "\<bar>x\<bar> = - x" using assms by auto
    have "\<not> \<bar>x\<bar> < 2 powi emin"
      using 3 expo_subnormal [of x] expo_ge [of y] by auto
    then have nx: "x \<le> - (2 powi emin)" using x by simp
    have "round64 x \<le> - (2 powi expo x)" using nx by (rule round64_normal_neg)
    also have "\<dots> \<le> - (2 powi (expo y + 1))"
    proof -
      have "(2::real) powi (expo y + 1) \<le> 2 powi expo x"
        using 3 by (intro power_int_increasing) auto
      then show ?thesis by simp
    qed
    also have "\<dots> \<le> round64 y" by (rule round64_lower)
    finally show ?thesis .
  qed
qed

lemma rne_zero [simp]: "rne 0 = 0"
  using rne_of_int [of 0] by simp

lemma round64_zero [simp]: "round64 0 = 0"
  by (simp add: round64_def)

lemma round64_nonneg: "0 \<le> x \<Longrightarrow> 0 \<le> round64 x"
  using round64_mono [of 0 x] by simp

lemma round64_nonpos: "x \<le> 0 \<Longrightarrow> round64 x \<le> 0"
  using round64_mono [of x 0] by simp

text \<open>A multiple of the unit in the last place is its own rounding.\<close>

lemma round64_exact:
  assumes "x = of_int m * ulp x"
  shows "round64 x = x"
proof -
  have "x / ulp x = of_int m"
    using assms ulp_pos [of x] by (simp add: field_simps)
  then show ?thesis
    unfolding round64_def using assms by simp
qed

text \<open>Evaluation at a number whose binade is known.\<close>

lemma round64_eval:
  assumes "emin \<le> k" and "2 powi k \<le> \<bar>x\<bar>" and "\<bar>x\<bar> < 2 powi (k + 1)"
  shows "round64 x = of_int (rne (x / 2 powi (k - 52))) * 2 powi (k - 52)"
  using expo_eqI [OF assms] by (simp add: round64_def ulp_def)

text \<open>Integers below \<open>2^53\<close> in magnitude are binary64 numbers.\<close>

lemma round64_of_int:
  assumes "\<bar>n\<bar> < 2 ^ 53"
  shows "round64 (of_int n) = of_int n"
proof (cases "n = 0")
  case True
  then show ?thesis by simp
next
  case False
  define x :: real where "x = of_int n"
  have x1: "1 \<le> \<bar>x\<bar>" using False by (simp add: x_def flip: of_int_abs)
  have "(2::real) powi emin \<le> 2 powi 0"
    by (intro power_int_increasing; simp add: emin_def)
  then have nx: "2 powi emin \<le> \<bar>x\<bar>" using x1 by simp
  have "\<bar>x\<bar> < of_int (2 ^ 53)"
    unfolding x_def using assms by (simp only: flip: of_int_abs)
  then have "\<bar>x\<bar> < 2 powi 53" by simp
  then have "2 powi expo x < (2::real) powi 53"
    using expo_bounds(1) [OF nx] by linarith
  then have e: "expo x < 53" by (rule powi2_less_cancel)
  define j where "j = nat (52 - expo x)"
  have u: "ulp x = 1 / 2 ^ j"
  proof -
    have "expo x - 52 = - int j" using e by (simp add: j_def)
    then have "ulp x = 2 powi (- int j)" by (simp add: ulp_def)
    then show ?thesis by (simp add: power_int_minus field_simps)
  qed
  have "x = of_int (n * 2 ^ j) * ulp x"
    unfolding u by (simp add: x_def)
  then have "round64 x = x" by (rule round64_exact)
  then show ?thesis by (simp add: x_def)
qed

lemma round64_numeral [simp]:
  "(numeral k :: int) < 2 ^ 53 \<Longrightarrow> round64 (numeral k) = numeral k"
  using round64_of_int [of "numeral k"] by simp

lemma round64_neg_numeral [simp]:
  "(numeral k :: int) < 2 ^ 53 \<Longrightarrow> round64 (- numeral k) = - numeral k"
  using round64_of_int [of "- numeral k"] by simp

lemma round64_one [simp]: "round64 1 = 1"
  using round64_of_int [of 1] by simp

lemma weight_03: "round64 0.3 = 5404319552844595 / 2 ^ 54"
  by (subst round64_eval [where k = "- 2"]) (simp_all add: emin_def rne_def Let_def)

lemma weight_02: "round64 0.2 = 3602879701896397 / 2 ^ 54"
  by (subst round64_eval [where k = "- 3"]) (simp_all add: emin_def rne_def Let_def)

lemma weight_01: "round64 0.1 = 3602879701896397 / 2 ^ 55"
  by (subst round64_eval [where k = "- 4"]) (simp_all add: emin_def rne_def Let_def)

lemma weight_005: "round64 0.05 = 3602879701896397 / 2 ^ 56"
  by (subst round64_eval [where k = "- 5"]) (simp_all add: emin_def rne_def Let_def)

lemmas weight_values = weight_03 weight_02 weight_01 weight_005

lemma fmul_mono: "0 \<le> c \<Longrightarrow> x \<le> y \<Longrightarrow> fmul c x \<le> fmul c y"
  unfolding fmul_def by (intro round64_mono mult_left_mono)

lemma fadd_mono: "a \<le> b \<Longrightarrow> c \<le> d \<Longrightarrow> fadd a c \<le> fadd b d"
  unfolding fadd_def by (intro round64_mono add_mono)

lemma fmul_nonneg: "0 \<le> a \<Longrightarrow> 0 \<le> b \<Longrightarrow> 0 \<le> fmul a b"
  unfolding fmul_def by (intro round64_nonneg mult_nonneg_nonneg)

lemma fadd_nonneg: "0 \<le> a \<Longrightarrow> 0 \<le> b \<Longrightarrow> 0 \<le> fadd a b"
  unfolding fadd_def by (intro round64_nonneg add_nonneg_nonneg)

lemma fmul_zero [simp]: "fmul c 0 = 0"
  by (simp add: fmul_def)

subsection \<open>The rounding error\<close>

lemma tiny_pos: "0 < tiny"
  by (simp add: tiny_def)

lemma round64_error: "\<bar>round64 x - x\<bar> \<le> ulp x / 2"
proof -
  have "round64 x - x = (of_int (rne (x / ulp x)) - x / ulp x) * ulp x"
    using ulp_pos [of x] by (simp add: round64_def field_simps)
  then have "\<bar>round64 x - x\<bar> = \<bar>of_int (rne (x / ulp x)) - x / ulp x\<bar> * ulp x"
    using ulp_pos [of x] by (simp add: abs_mult)
  also have "\<dots> \<le> 1 / 2 * ulp x"
    using rne_error [of "x / ulp x"] ulp_pos [of x] by (intro mult_right_mono) auto
  finally show ?thesis by simp
qed

lemma ulp_normal: "2 powi emin \<le> \<bar>x\<bar> \<Longrightarrow> ulp x \<le> \<bar>x\<bar> / 2 ^ 52"
proof -
  assume "2 powi emin \<le> \<bar>x\<bar>"
  then have "2 powi expo x \<le> \<bar>x\<bar>" by (rule expo_bounds(1))
  moreover have "ulp x = 2 powi expo x / 2 ^ 52"
    by (simp add: ulp_def power_int_diff)
  ultimately show ?thesis by (simp add: divide_right_mono)
qed

lemma ulp_subnormal: "\<bar>x\<bar> < 2 powi emin \<Longrightarrow> ulp x = 2 * tiny"
proof -
  assume "\<bar>x\<bar> < 2 powi emin"
  then have "expo x = emin" by (rule expo_subnormal)
  moreover have "(2::real) powi (emin - 52) = 2 powi (1 + (emin - 53))" by simp
  moreover have "(2::real) powi (1 + (emin - 53)) = 2 powi 1 * 2 powi (emin - 53)"
    by (rule power_int_add) simp
  ultimately show ?thesis by (simp add: ulp_def tiny_def)
qed

lemma round64_close: "\<bar>round64 x - x\<bar> \<le> \<bar>x\<bar> / 2 ^ 53 + tiny"
proof (cases "2 powi emin \<le> \<bar>x\<bar>")
  case True
  then show ?thesis
    using round64_error [of x] ulp_normal [of x] tiny_pos by simp
next
  case False
  then have "ulp x = 2 * tiny" by (simp add: ulp_subnormal)
  then show ?thesis
    using round64_error [of x] by simp
qed

lemma round64_close_nonneg:
  assumes "0 \<le> x"
  shows "x * (1 - 1 / 2 ^ 53) - tiny \<le> round64 x" and "round64 x \<le> x * (1 + 1 / 2 ^ 53) + tiny"
  using round64_close [of x] assms by (simp_all add: algebra_simps abs_if split: if_splits)

lemma fmul_close:
  assumes "0 \<le> c" and "0 \<le> x"
  shows "c * x * (1 - 1 / 2 ^ 53) - tiny \<le> fmul c x" and "fmul c x \<le> c * x * (1 + 1 / 2 ^ 53) + tiny"
  unfolding fmul_def using round64_close_nonneg [of "c * x"] assms by simp_all

lemma fadd_close:
  assumes "0 \<le> a" and "0 \<le> b"
  shows "(a + b) * (1 - 1 / 2 ^ 53) - tiny \<le> fadd a b" and "fadd a b \<le> (a + b) * (1 + 1 / 2 ^ 53) + tiny"
  unfolding fadd_def using round64_close_nonneg [of "a + b"] assms by simp_all

lemma tiny_le: "tiny \<le> 1 / 2 ^ 10"
proof -
  have "(2::real) powi (emin - 53) \<le> 2 powi (- 10)"
    by (intro power_int_increasing; simp add: emin_def)
  then show ?thesis by (simp add: tiny_def power_int_minus field_simps)
qed

lemma round64_magnitude: "\<bar>round64 x\<bar> \<le> \<bar>x\<bar> * (1 + 1 / 2 ^ 53) + tiny"
  using round64_close [of x] by (simp add: algebra_simps)

lemma fmul_magnitude:
  assumes "0 \<le> c"
  shows "\<bar>fmul c x\<bar> \<le> c * \<bar>x\<bar> * (1 + 1 / 2 ^ 53) + tiny"
  unfolding fmul_def using round64_magnitude [of "c * x"] assms by (simp add: abs_mult)

lemma fadd_magnitude: "\<bar>fadd a b\<bar> \<le> (\<bar>a\<bar> + \<bar>b\<bar>) * (1 + 1 / 2 ^ 53) + tiny"
proof -
  have "\<bar>a + b\<bar> * (1 + 1 / 2 ^ 53) \<le> (\<bar>a\<bar> + \<bar>b\<bar>) * (1 + 1 / 2 ^ 53)"
    by (intro mult_right_mono) auto
  then show ?thesis
    unfolding fadd_def using round64_magnitude [of "a + b"] by linarith
qed

section \<open>The rule classifier\<close>

subsection \<open>The score\<close>

lemma aqi_score_nonneg:
  assumes "0 \<le> PM2_5 s" and "0 \<le> PM10 s" and "0 \<le> NO2 s" and "0 \<le> O3 s"
  shows "0 \<le> aqi_score s"
  unfolding aqi_score_def
  using assms by (intro fadd_nonneg fmul_nonneg round64_nonneg) simp_all

lemma aqi_score_mono:
  assumes "PM2_5 s \<le> PM2_5 s'" and "PM10 s \<le> PM10 s'" and "NO2 s \<le> NO2 s'"
    and "O3 s \<le> O3 s'"
  shows "aqi_score s \<le> aqi_score s'"
  unfolding aqi_score_def
  using assms by (intro fadd_mono fmul_mono round64_nonneg) simp_all

text \<open>The computed score is the exact weighted sum up to a relative error of \<open>2^-50\<close>
  (and the absolute error \<open>8 * tiny\<close> of results in the subnormal range).\<close>

lemma aqi_score_close:
  assumes "0 \<le> PM2_5 s" and "0 \<le> PM10 s" and "0 \<le> NO2 s" and "0 \<le> O3 s"
  shows "\<bar>aqi_score s - weighted_sum s\<bar> \<le> weighted_sum s / 2 ^ 50 + 8 * tiny"
proof -
  define t1 where "t1 = fmul (round64 0.3) (PM2_5 s)"
  define t2 where "t2 = fmul (round64 0.2) (PM10 s)"
  define t3 where "t3 = fmul (round64 0.1) (NO2 s)"
  define t4 where "t4 = fmul (round64 0.05) (O3 s)"
  define s1 where "s1 = fadd t1 t2"
  define s2 where "s2 = fadd s1 t3"
  define s3 where "s3 = fadd s2 t4"
  have sc: "aqi_score s = s3"
    by (simp add: aqi_score_def s3_def s2_def s1_def t1_def t2_def t3_def t4_def)
  have w: "0 \<le> round64 0.3" "0 \<le> round64 0.2" "0 \<le> round64 0.1" "0 \<le> round64 0.05"
    by (simp_all add: round64_nonneg)
  have n: "0 \<le> t1" "0 \<le> t2" "0 \<le> t3" "0 \<le> t4"
    unfolding t1_def t2_def t3_def t4_def using assms w by (simp_all add: fmul_nonneg)
  have m: "0 \<le> s1" "0 \<le> s2"
    unfolding s1_def s2_def using n by (simp_all add: fadd_nonneg)
  note b1 = fmul_close [OF w(1) assms(1), folded t1_def, unfolded weight_values]
  note b2 = fmul_close [OF w(2) assms(2), folded t2_def, unfolded weight_values]
  note b3 = fmul_close [OF w(3) assms(3), folded t3_def, unfolded weight_values]
  note b4 = fmul_close [OF w(4) assms(4), folded t4_def, unfolded weight_values]
  note c1 = fadd_close [OF n(1) n(2), folded s1_def]
  note c2 = fadd_close [OF m(1) n(3), folded s2_def]
  note c3 = fadd_close [OF m(2) n(4), folded s3_def]
  have up: "s3 \<le> weighted_sum s * (1 + 1 / 2 ^ 50) + 8 * tiny"
    unfolding weighted_sum_def
    using b1(2) b2(2) b3(2) b4(2) c1(2) c2(2) c3(2) assms tiny_pos
    by (simp add: algebra_simps add_divide_distrib)
  have lo: "weighted_sum s * (1 - 1 / 2 ^ 50) - 8 * tiny \<le> s3"
    unfolding weighted_sum_def
    using b1(1) b2(1) b3(1) b4(1) c1(1) c2(1) c3(1) assms tiny_pos
    by (simp add: algebra_simps add_divide_distrib)
  show ?thesis
    unfolding sc using up lo by (simp add: algebra_simps add_divide_distrib abs_if)
qed

text \<open>No operation of the score overflows: when the four fields are at most \<open>M\<close> in
  magnitude, so is every intermediate result, with room to spare.\<close>

lemma aqi_score_finite:
  assumes "\<bar>PM2_5 s\<bar> \<le> M" and "\<bar>PM10 s\<bar> \<le> M" and "\<bar>NO2 s\<bar> \<le> M" and "\<bar>O3 s\<bar> \<le> M"
    and "1 \<le> M"
  shows "\<bar>fmul (round64 0.3) (PM2_5 s)\<bar> \<le> M / 2"
    and "\<bar>fmul (round64 0.2) (PM10 s)\<bar> \<le> M / 2"
    and "\<bar>fmul (round64 0.1) (NO2 s)\<bar> \<le> M / 2"
    and "\<bar>fmul (round64 0.05) (O3 s)\<bar> \<le> M / 2"
    and "\<bar>fadd (fmul (round64 0.3) (PM2_5 s)) (fmul (round64 0.2) (PM10 s))\<bar> \<le> 3 / 4 * M"
    and "\<bar>fadd (fadd (fmul (round64 0.3) (PM2_5 s)) (fmul (round64 0.2) (PM10 s)))
               (fmul (round64 0.1) (NO2 s))\<bar> \<le> 3 / 4 * M"
    and "\<bar>aqi_score s\<bar> \<le> 3 / 4 * M"
proof -
  define t1 where "t1 = fmul (round64 0.3) (PM2_5 s)"
  define t2 where "t2 = fmul (round64 0.2) (PM10 s)"
  define t3 where "t3 = fmul (round64 0.1) (NO2 s)"
  define t4 where "t4 = fmul (round64 0.05) (O3 s)"
  define s1 where "s1 = fadd t1 t2"
  define s2 where "s2 = fadd s1 t3"
  define s3 where "s3 = fadd s2 t4"
  have sc: "aqi_score s = s3"
    by (simp add: aqi_score_def s3_def s2_def s1_def t1_def t2_def t3_def t4_def)
  have w: "0 \<le> round64 0.3" "0 \<le> round64 0.2" "0 \<le> round64 0.1" "0 \<le> round64 0.05"
    by (simp_all add: round64_nonneg)
  note b1 = fmul_magnitude [OF w(1), of "PM2_5 s", folded t1_def, unfolded weight_values]
  note b2 = fmul_magnitude [OF w(2), of "PM10 s", folded t2_def, unfolded weight_values]
  note b3 = fmul_magnitude [OF w(3), of "NO2 s", folded t3_def, unfolded weight_values]
  note b4 = fmul_magnitude [OF w(4), of "O3 s", folded t4_def, unfolded weight_values]
  note c1 = fadd_magnitude [of t1 t2, folded s1_def]
  note c2 = fadd_magnitude [of s1 t3, folded s2_def]
  note c3 = fadd_magnitude [of s2 t4, folded s3_def]
  have r1: "\<bar>t1\<bar> \<le> 301 / 1000 * M"
    using b1 assms(1,5) tiny_le by (simp add: algebra_simps add_divide_distrib)
  have r2: "\<bar>t2\<bar> \<le> 201 / 1000 * M"
    using b2 assms(2,5) tiny_le by (simp add: algebra_simps add_divide_distrib)
  have r3: "\<bar>t3\<bar> \<le> 101 / 1000 * M"
    using b3 assms(3,5) tiny_le by (simp add: algebra_simps add_divide_distrib)
  have r4: "\<bar>t4\<bar> \<le> 51 / 1000 * M"
    using b4 assms(4,5) tiny_le by (simp add: algebra_simps add_divide_distrib)
  have q1: "\<bar>s1\<bar> \<le> 504 / 1000 * M"
    using c1 r1 r2 assms(5) tiny_le by (simp add: algebra_simps add_divide_distrib)
  have q2: "\<bar>s2\<bar> \<le> 607 / 1000 * M"
    using c2 q1 r3 assms(5) tiny_le by (simp add: algebra_simps add_divide_distrib)
  have q3: "\<bar>s3\<bar> \<le> 660 / 1000 * M"
    using c3 q2 r4 assms(5) tiny_le by (simp add: algebra_simps add_divide_distrib)
  show "\<bar>fmul (round64 0.3) (PM2_5 s)\<bar> \<le> M / 2"
    using r1 assms(5) by (simp add: t1_def)
  show "\<bar>fmul (round64 0.2) (PM10 s)\<bar> \<le> M / 2"
    using r2 assms(5) by (simp add: t2_def)
  show "\<bar>fmul (round64 0.1) (NO2 s)\<bar> \<le> M / 2"
    using r3 assms(5) by (simp add: t3_def)
  show "\<bar>fmul (round64 0.05) (O3 s)\<bar> \<le> M / 2"
    using r4 assms(5) by (simp add: t4_def)
  show "\<bar>fadd (fmul (round64 0.3) (PM2_5 s)) (fmul (round64 0.2) (PM10 s))\<bar> \<le> 3 / 4 * M"
    using q1 assms(5) by (simp add: s1_def t1_def t2_def)
  show "\<bar>fadd (fadd (fmul (round64 0.3) (PM2_5 s)) (fmul (round64 0.2) (PM10 s)))
               (fmul (round64 0.1) (NO2 s))\<bar> \<le> 3 / 4 * M"
    using q2 assms(5) by (simp add: s2_def s1_def t1_def t2_def t3_def)
  show "\<bar>aqi_score s\<bar> \<le> 3 / 4 * M"
    using q3 assms(5) by (simp add: sc)
qed

subsection \<open>The score at some samples\<close>

lemma aqi_score_at_demo:
  assumes "PM2_5 s = 150" and "PM10 s = 180" and "NO2 s = 80" and "O3 s = 60"
  shows "aqi_score s = 92"
proof -
  have t1: "fmul (round64 0.3) 150 = 45"
    unfolding fmul_def weight_values
    by (subst round64_eval [where k = "5"]) (simp_all add: emin_def rne_def Let_def)
  have t2: "fmul (round64 0.2) 180 = 36"
    unfolding fmul_def weight_values
    by (subst round64_eval [where k = "5"]) (simp_all add: emin_def rne_def Let_def)
  have t3: "fmul (round64 0.1) 80 = 8"
    unfolding fmul_def weight_values
    by (subst round64_eval [where k = "3"]) (simp_all add: emin_def rne_def Let_def)
  have t4: "fmul (round64 0.05) 60 = 3"
    unfolding fmul_def weight_values
    by (subst round64_eval [where k = "1"]) (simp_all add: emin_def rne_def Let_def)
  have s1: "fadd 45 36 = 81"
    unfolding fadd_def
    by (subst round64_eval [where k = "6"]) (simp_all add: emin_def rne_def Let_def)
  have s2: "fadd 81 8 = 89"
    unfolding fadd_def
    by (subst round64_eval [where k = "6"]) (simp_all add: emin_def rne_def Let_def)
  have s3: "fadd 89 3 = 92"
    unfolding fadd_def
    by (subst round64_eval [where k = "6"]) (simp_all add: emin_def rne_def Let_def)
  show ?thesis
    unfolding aqi_score_def assms t1 t2 t3 t4 s1 s2 s3 ..
qed

lemma aqi_score_at_ten_fields:
  assumes "PM2_5 s = 4" and "PM10 s = 5" and "NO2 s = 6" and "O3 s = 7"
  shows "aqi_score s = 1773292353277133 / 2 ^ 49"
proof -
  have t1: "fmul (round64 0.3) 4 = 5404319552844595 / 2 ^ 52"
    unfolding fmul_def weight_values
    by (subst round64_eval [where k = "0"]) (simp_all add: emin_def rne_def Let_def)
  have t2: "fmul (round64 0.2) 5 = 1"
    unfolding fmul_def weight_values
    by (subst round64_eval [where k = "0"]) (simp_all add: emin_def rne_def Let_def)
  have t3: "fmul (round64 0.1) 6 = 1351079888211149 / 2 ^ 51"
    unfolding fmul_def weight_values
    by (subst round64_eval [where k = "- 1"]) (simp_all add: emin_def rne_def Let_def)
  have t4: "fmul (round64 0.05) 7 = 6305039478318695 / 2 ^ 54"
    unfolding fmul_def weight_values
    by (subst round64_eval [where k = "- 2"]) (simp_all add: emin_def rne_def Let_def)
  have s1: "fadd (5404319552844595 / 2 ^ 52) 1 = 2476979795053773 / 2 ^ 50"
    unfolding fadd_def
    by (subst round64_eval [where k = "1"]) (simp_all add: emin_def rne_def Let_def)
  have s2: "fadd (2476979795053773 / 2 ^ 50) (1351079888211149 / 2 ^ 51) = 6305039478318695 / 2 ^ 51"
    unfolding fadd_def
    by (subst round64_eval [where k = "1"]) (simp_all add: emin_def rne_def Let_def)
  have s3: "fadd (6305039478318695 / 2 ^ 51) (6305039478318695 / 2 ^ 54) = 1773292353277133 / 2 ^ 49"
    unfolding fadd_def
    by (subst round64_eval [where k = "1"]) (simp_all add: emin_def rne_def Let_def)
  show ?thesis
    unfolding aqi_score_def assms t1 t2 t3 t4 s1 s2 s3 ..
qed

lemma aqi_score_at_in_range:
  assumes "PM2_5 s = 5" and "PM10 s = 154" and "NO2 s = 88" and "O3 s = 178"
  shows "aqi_score s = 7036874417766399 / 2 ^ 47"
proof -
  have t1: "fmul (round64 0.3) 5 = 3 / 2 ^ 1"
    unfolding fmul_def weight_values
    by (subst round64_eval [where k = "0"]) (simp_all add: emin_def rne_def Let_def)
  have t2: "fmul (round64 0.2) 154 = 8669429282688205 / 2 ^ 48"
    unfolding fmul_def weight_values
    by (subst round64_eval [where k = "4"]) (simp_all add: emin_def rne_def Let_def)
  have t3: "fmul (round64 0.1) 88 = 2476979795053773 / 2 ^ 48"
    unfolding fmul_def weight_values
    by (subst round64_eval [where k = "3"]) (simp_all add: emin_def rne_def Let_def)
  have t4: "fmul (round64 0.05) 178 = 5010254585449677 / 2 ^ 49"
    unfolding fmul_def weight_values
    by (subst round64_eval [where k = "3"]) (simp_all add: emin_def rne_def Let_def)
  have s1: "fadd (3 / 2 ^ 1) (8669429282688205 / 2 ^ 48) = 2272910436938547 / 2 ^ 46"
    unfolding fadd_def
    by (subst round64_eval [where k = "5"]) (simp_all add: emin_def rne_def Let_def)
  have s2: "fadd (2272910436938547 / 2 ^ 46) (2476979795053773 / 2 ^ 48) = 1446077692850995 / 2 ^ 45"
    unfolding fadd_def
    by (subst round64_eval [where k = "5"]) (simp_all add: emin_def rne_def Let_def)
  have s3: "fadd (1446077692850995 / 2 ^ 45) (5010254585449677 / 2 ^ 49) = 7036874417766399 / 2 ^ 47"
    unfolding fadd_def
    by (subst round64_eval [where k = "5"]) (simp_all add: emin_def rne_def Let_def)
  show ?thesis
    unfolding aqi_score_def assms t1 t2 t3 t4 s1 s2 s3 ..
qed

lemma aqi_score_at_pm10_250:
  assumes "PM2_5 s = 0" and "PM10 s = 250" and "NO2 s = 0" and "O3 s = 0"
  shows "aqi_score s = 50"
proof -
  have t1: "fmul (round64 0.3) 0 = 0"
    by simp
  have t2: "fmul (round64 0.2) 250 = 50"
    unfolding fmul_def weight_values
    by (subst round64_eval [where k = "5"]) (simp_all add: emin_def rne_def Let_def)
  have t3: "fmul (round64 0.1) 0 = 0"
    by simp
  have t4: "fmul (round64 0.05) 0 = 0"
    by simp
  have s1: "fadd 0 50 = 50"
    unfolding fadd_def
    by (subst round64_eval [where k = "5"]) (simp_all add: emin_def rne_def Let_def)
  have s2: "fadd 50 0 = 50"
    unfolding fadd_def
    by (subst round64_eval [where k = "5"]) (simp_all add: emin_def rne_def Let_def)
  have s3: "fadd 50 0 = 50"
    unfolding fadd_def
    by (subst round64_eval [where k = "5"]) (simp_all add: emin_def rne_def Let_def)
  show ?thesis
    unfolding aqi_score_def assms t1 t2 t3 t4 s1 s2 s3 ..
qed

lemma aqi_score_at_pm10_249:
  assumes "PM2_5 s = 0" and "PM10 s = 249" and "NO2 s = 0" and "O3 s = 0"
  shows "aqi_score s = 7008726920095335 / 2 ^ 47"
proof -
  have t1: "fmul (round64 0.3) 0 = 0"
    by simp
  have t2: "fmul (round64 0.2) 249 = 7008726920095335 / 2 ^ 47"
    unfolding fmul_def weight_values
    by (subst round64_eval [where k = "5"]) (simp_all add: emin_def rne_def Let_def)
  have t3: "fmul (round64 0.1) 0 = 0"
    by simp
  have t4: "fmul (round64 0.05) 0 = 0"
    by simp
  have s1: "fadd 0 (7008726920095335 / 2 ^ 47) = 7008726920095335 / 2 ^ 47"
    unfolding fadd_def
    by (subst round64_eval [where k = "5"]) (simp_all add: emin_def rne_def Let_def)
  have s2: "fadd (7008726920095335 / 2 ^ 47) 0 = 7008726920095335 / 2 ^ 47"
    unfolding fadd_def
    by (subst round64_eval [where k = "5"]) (simp_all add: emin_def rne_def Let_def)
  have s3: "fadd (7008726920095335 / 2 ^ 47) 0 = 7008726920095335 / 2 ^ 47"
    unfolding fadd_def
    by (subst round64_eval [where k = "5"]) (simp_all add: emin_def rne_def Let_def)
  show ?thesis
    unfolding aqi_score_def assms t1 t2 t3 t4 s1 s2 s3 ..
qed

lemma aqi_score_at_pm10_500:
  assumes "PM2_5 s = 0" and "PM10 s = 500" and "NO2 s = 0" and "O3 s = 0"
  shows "aqi_score s = 100"
proof -
  have t1: "fmul (round64 0.3) 0 = 0"
    by simp
  have t2: "fmul (round64 0.2) 500 = 100"
    unfolding fmul_def weight_values
    by (subst round64_eval [where k = "6"]) (simp_all add: emin_def rne_def Let_def)
  have t3: "fmul (round64 0.1) 0 = 0"
    by simp
  have t4: "fmul (round64 0.05) 0 = 0"
    by simp
  have s1: "fadd 0 100 = 100"
    unfolding fadd_def
    by (subst round64_eval [where k = "6"]) (simp_all add: emin_def rne_def Let_def)
  have s2: "fadd 100 0 = 100"
    unfolding fadd_def
    by (subst round64_eval [where k = "6"]) (simp_all add: emin_def rne_def Let_def)
  have s3: "fadd 100 0 = 100"
    unfolding fadd_def
    by (subst round64_eval [where k = "6"]) (simp_all add: emin_def rne_def Let_def)
  show ?thesis
    unfolding aqi_score_def assms t1 t2 t3 t4 s1 s2 s3 ..
qed

lemma aqi_score_at_pm10_1000:
  assumes "PM2_5 s = 0" and "PM10 s = 1000" and "NO2 s = 0" and "O3 s = 0"
  shows "aqi_score s = 200"
proof -
  have t1: "fmul (round64 0.3) 0 = 0"
    by simp
  have t2: "fmul (round64 0.2) 1000 = 200"
    unfolding fmul_def weight_values
    by (subst round64_eval [where k = "7"]) (simp_all add: emin_def rne_def Let_def)
  have t3: "fmul (round64 0.1) 0 = 0"
    by simp
  have t4: "fmul (round64 0.05) 0 = 0"
    by simp
  have s1: "fadd 0 200 = 200"
    unfolding fadd_def
    by (subst round64_eval [where k = "7"]) (simp_all add: emin_def rne_def Let_def)
  have s2: "fadd 200 0 = 200"
    unfolding fadd_def
    by (subst round64_eval [where k = "7"]) (simp_all add: emin_def rne_def Let_def)
  have s3: "fadd 200 0 = 200"
    unfolding fadd_def
    by (subst round64_eval [where k = "7"]) (simp_all add: emin_def rne_def Let_def)
  show ?thesis
    unfolding aqi_score_def assms t1 t2 t3 t4 s1 s2 s3 ..
qed

lemma aqi_score_at_pm25_neg:
  assumes "PM2_5 s = - 10" and "PM10 s = 0" and "NO2 s = 0" and "O3 s = 0"
  shows "aqi_score s = - 3"
proof -
  have t1: "fmul (round64 0.3) (- 10) = - 3"
    unfolding fmul_def weight_values
    by (subst round64_eval [where k = "1"]) (simp_all add: emin_def rne_def Let_def)
  have t2: "fmul (round64 0.2) 0 = 0"
    by simp
  have t3: "fmul (round64 0.1) 0 = 0"
    by simp
  have t4: "fmul (round64 0.05) 0 = 0"
    by simp
  have s1: "fadd (- 3) 0 = - 3"
    unfolding fadd_def
    by (subst round64_eval [where k = "1"]) (simp_all add: emin_def rne_def Let_def)
  have s2: "fadd (- 3) 0 = - 3"
    unfolding fadd_def
    by (subst round64_eval [where k = "1"]) (simp_all add: emin_def rne_def Let_def)
  have s3: "fadd (- 3) 0 = - 3"
    unfolding fadd_def
    by (subst round64_eval [where k = "1"]) (simp_all add: emin_def rne_def Let_def)
  show ?thesis
    unfolding aqi_score_def assms t1 t2 t3 t4 s1 s2 s3 ..
qed

lemma aqi_score_at_pm25_400:
  assumes "PM2_5 s = 400" and "PM10 s = 0" and "NO2 s = 0" and "O3 s = 0"
  shows "aqi_score s = 120"
proof -
  have t1: "fmul (round64 0.3) 400 = 120"
    unfolding fmul_def weight_values
    by (subst round64_eval [where k = "6"]) (simp_all add: emin_def rne_def Let_def)
  have t2: "fmul (round64 0.2) 0 = 0"
    by simp
  have t3: "fmul (round64 0.1) 0 = 0"
    by simp
  have t4: "fmul (round64 0.05) 0 = 0"
    by simp
  have s1: "fadd 120 0 = 120"
    unfolding fadd_def
    by (subst round64_eval [where k = "6"]) (simp_all add: emin_def rne_def Let_def)
  have s2: "fadd 120 0 = 120"
    unfolding fadd_def
    by (subst round64_eval [where k = "6"]) (simp_all add: emin_def rne_def Let_def)
  have s3: "fadd 120 0 = 120"
    unfolding fadd_def
    by (subst round64_eval [where k = "6"]) (simp_all add: emin_def rne_def Let_def)
  show ?thesis
    unfolding aqi_score_def assms t1 t2 t3 t4 s1 s2 s3 ..
qed


lemma aqi_score_at_nine_values:
  assumes "PM2_5 s = 300" and "PM10 s = 300" and "NO2 s = 100" and "O3 s = 100"
  shows "aqi_score s = 165"
proof -
  have t1: "fmul (round64 0.3) 300 = 90"
    unfolding fmul_def weight_values
    by (subst round64_eval [where k = "6"]) (simp_all add: emin_def rne_def Let_def)
  have t2: "fmul (round64 0.2) 300 = 60"
    unfolding fmul_def weight_values
    by (subst round64_eval [where k = "5"]) (simp_all add: emin_def rne_def Let_def)
  have t3: "fmul (round64 0.1) 100 = 10"
    unfolding fmul_def weight_values
    by (subst round64_eval [where k = "3"]) (simp_all add: emin_def rne_def Let_def)
  have t4: "fmul (round64 0.05) 100 = 5"
    unfolding fmul_def weight_values
    by (subst round64_eval [where k = "2"]) (simp_all add: emin_def rne_def Let_def)
  have s1: "fadd 90 60 = 150"
    unfolding fadd_def
    by (subst round64_eval [where k = "7"]) (simp_all add: emin_def rne_def Let_def)
  have s2: "fadd 150 10 = 160"
    unfolding fadd_def
    by (subst round64_eval [where k = "7"]) (simp_all add: emin_def rne_def Let_def)
  have s3: "fadd 160 5 = 165"
    unfolding fadd_def
    by (subst round64_eval [where k = "7"]) (simp_all add: emin_def rne_def Let_def)
  show ?thesis
    unfolding aqi_score_def assms t1 t2 t3 t4 s1 s2 s3 ..
qed


subsection \<open>The two rule functions\<close>

lemma compute_aqi_level_mono:
  "aqi_score s \<le> aqi_score s' \<Longrightarrow> compute_aqi_level s \<le> compute_aqi_level s'"
  by (simp add: compute_aqi_level_def Let_def)

lemma compute_aqi_level_labels [simp]:
  "compute_aqi_level (s\<lparr>AQI_Level := a\<rparr>) = compute_aqi_level s"
  "compute_aqi_level (s\<lparr>Health_Risk := h\<rparr>) = compute_aqi_level s"
  by (simp_all add: compute_aqi_level_def aqi_score_def)

lemma compute_health_risk_label [simp]:
  "compute_health_risk (s\<lparr>Health_Risk := h\<rparr>) = compute_health_risk s"
  by (simp add: compute_health_risk_def Let_def)

lemma compute_aqi_level_range: "compute_aqi_level s \<in> {0, 1, 2, 3}"
  by (simp add: compute_aqi_level_def Let_def)

lemma compute_health_risk_range:
  "AQI_Level s \<in> {0, 1, 2, 3} \<Longrightarrow> compute_health_risk s \<in> {0, 1, 2}"
  by (auto simp: compute_health_risk_def Let_def)

lemma zero_sample_fields [simp]:
  "PM2_5 zero_sample = 0" "PM10 zero_sample = 0" "NO2 zero_sample = 0" "O3 zero_sample = 0"
  by (simp_all add: zero_sample_def)

text \<open>
  C1. The health-risk function follows the decision table on (AQI level, city type):
  level 0 gives risk 0 and level 1 gives risk 1 whatever the city type; level 2 gives
  risk 2 for an urban sample (city type 1) and risk 1 for a rural one (city type 0);
  level 3 gives risk 2 whatever the city type.
\<close>

theorem health_risk_decision_table:
  "(AQI_Level s = 0 \<longrightarrow> compute_health_risk s = 0) \<and>
   (AQI_Level s = 1 \<longrightarrow> compute_health_risk s = 1) \<and>
   (AQI_Level s = 2 \<and> CityType s = 1 \<longrightarrow> compute_health_risk s = 2) \<and>
   (AQI_Level s = 2 \<and> CityType s = 0 \<longrightarrow> compute_health_risk s = 1) \<and>
   (AQI_Level s = 3 \<longrightarrow> compute_health_risk s = 2)"
  by (simp add: compute_health_risk_def)

theorem health_risk_decision_table_witness:
  "compute_health_risk (zero_sample\<lparr>AQI_Level := 0\<rparr>) = 0 \<and>
   compute_health_risk (zero_sample\<lparr>AQI_Level := 1, CityType := 1\<rparr>) = 1 \<and>
   compute_health_risk (zero_sample\<lparr>AQI_Level := 2, CityType := 1\<rparr>) = 2 \<and>
   compute_health_risk (zero_sample\<lparr>AQI_Level := 2, CityType := 0\<rparr>) = 1 \<and>
   compute_health_risk (zero_sample\<lparr>AQI_Level := 3, CityType := 0\<rparr>) = 2"
  using health_risk_decision_table [of "zero_sample\<lparr>AQI_Level := 0\<rparr>"]
    health_risk_decision_table [of "zero_sample\<lparr>AQI_Level := 1, CityType := 1\<rparr>"]
    health_risk_decision_table [of "zero_sample\<lparr>AQI_Level := 2, CityType := 1\<rparr>"]
    health_risk_decision_table [of "zero_sample\<lparr>AQI_Level := 2, CityType := 0\<rparr>"]
    health_risk_decision_table [of "zero_sample\<lparr>AQI_Level := 3, CityType := 0\<rparr>"]
  by simp

text \<open>
  C2, as the code has it. For a sample with non-negative pollutant fields, the score is
  the value of \<open>0.3*PM2_5 + 0.2*PM10 + 0.1*NO2 + 0.05*O3\<close> in binary64 arithmetic (each
  literal, product and sum rounded to nearest); it differs from the exact weighted sum
  by at most \<open>2^-50\<close> of that sum (plus \<open>2^-1072\<close>) and it is not negative. The level is 0
  for a computed score in \<open>[0,50)\<close>, 1 in \<open>[50,100)\<close>, 2 in \<open>[100,200)\<close> and 3 from 200
  on; a computed score of exactly 50, 100 or 200 belongs to the upper level.
\<close>

theorem aqi_level_thresholds:
  assumes "0 \<le> PM2_5 s" and "0 \<le> PM10 s" and "0 \<le> NO2 s" and "0 \<le> O3 s"
  shows "aqi_score s =
           fadd (fadd (fadd (fmul (round64 0.3) (PM2_5 s)) (fmul (round64 0.2) (PM10 s)))
                      (fmul (round64 0.1) (NO2 s)))
                (fmul (round64 0.05) (O3 s)) \<and>
         \<bar>aqi_score s - weighted_sum s\<bar> \<le> weighted_sum s / 2 ^ 50 + 8 * tiny \<and>
         0 \<le> aqi_score s \<and>
         (aqi_score s < 50 \<longrightarrow> compute_aqi_level s = 0) \<and>
         (50 \<le> aqi_score s \<and> aqi_score s < 100 \<longrightarrow> compute_aqi_level s = 1) \<and>
         (100 \<le> aqi_score s \<and> aqi_score s < 200 \<longrightarrow> compute_aqi_level s = 2) \<and>
         (200 \<le> aqi_score s \<longrightarrow> compute_aqi_level s = 3)"
proof -
  have "aqi_score s =
           fadd (fadd (fadd (fmul (round64 0.3) (PM2_5 s)) (fmul (round64 0.2) (PM10 s)))
                      (fmul (round64 0.1) (NO2 s)))
                (fmul (round64 0.05) (O3 s))"
    by (simp only: aqi_score_def)
  moreover have "\<bar>aqi_score s - weighted_sum s\<bar> \<le> weighted_sum s / 2 ^ 50 + 8 * tiny"
    using assms by (rule aqi_score_close)
  moreover have "0 \<le> aqi_score s"
    using assms by (rule aqi_score_nonneg)
  moreover have "(aqi_score s < 50 \<longrightarrow> compute_aqi_level s = 0) \<and>
         (50 \<le> aqi_score s \<and> aqi_score s < 100 \<longrightarrow> compute_aqi_level s = 1) \<and>
         (100 \<le> aqi_score s \<and> aqi_score s < 200 \<longrightarrow> compute_aqi_level s = 2) \<and>
         (200 \<le> aqi_score s \<longrightarrow> compute_aqi_level s = 3)"
    by (simp add: compute_aqi_level_def Let_def)
  ultimately show ?thesis by blast
qed

theorem aqi_level_thresholds_witness:
  "aqi_score (zero_sample\<lparr>PM10 := 250\<rparr>) = 50 \<and>
   compute_aqi_level (zero_sample\<lparr>PM10 := 250\<rparr>) = 1 \<and>
   aqi_score (zero_sample\<lparr>PM10 := 500\<rparr>) = 100 \<and>
   compute_aqi_level (zero_sample\<lparr>PM10 := 500\<rparr>) = 2 \<and>
   aqi_score (zero_sample\<lparr>PM10 := 1000\<rparr>) = 200 \<and>
   compute_aqi_level (zero_sample\<lparr>PM10 := 1000\<rparr>) = 3 \<and>
   aqi_score (zero_sample\<lparr>PM10 := 249\<rparr>) = 7008726920095335 / 2 ^ 47 \<and>
   compute_aqi_level (zero_sample\<lparr>PM10 := 249\<rparr>) = 0"
proof -
  have a: "aqi_score (zero_sample\<lparr>PM10 := 250\<rparr>) = 50"
    by (rule aqi_score_at_pm10_250) simp_all
  have b: "aqi_score (zero_sample\<lparr>PM10 := 500\<rparr>) = 100"
    by (rule aqi_score_at_pm10_500) simp_all
  have c: "aqi_score (zero_sample\<lparr>PM10 := 1000\<rparr>) = 200"
    by (rule aqi_score_at_pm10_1000) simp_all
  have d: "aqi_score (zero_sample\<lparr>PM10 := 249\<rparr>) = 7008726920095335 / 2 ^ 47"
    by (rule aqi_score_at_pm10_249) simp_all
  have "compute_aqi_level (zero_sample\<lparr>PM10 := 250\<rparr>) = 1"
    using aqi_level_thresholds [of "zero_sample\<lparr>PM10 := 250\<rparr>"] by (simp add: a)
  moreover have "compute_aqi_level (zero_sample\<lparr>PM10 := 500\<rparr>) = 2"
    using aqi_level_thresholds [of "zero_sample\<lparr>PM10 := 500\<rparr>"] by (simp add: b)
  moreover have "compute_aqi_level (zero_sample\<lparr>PM10 := 1000\<rparr>) = 3"
    using aqi_level_thresholds [of "zero_sample\<lparr>PM10 := 1000\<rparr>"] by (simp add: c)
  moreover have "compute_aqi_level (zero_sample\<lparr>PM10 := 249\<rparr>) = 0"
    using aqi_level_thresholds [of "zero_sample\<lparr>PM10 := 249\<rparr>"] by (simp add: d)
  ultimately show ?thesis
    using a b c d by blast
qed

text \<open>
  C2 as the specification words it, with the score read as the exact weighted sum,
  fails. The sample below has non-negative fields inside the ranges of the generator
  and its exact weighted sum is \<open>1.5 + 30.8 + 8.8 + 8.9 = 50\<close>, for which the claim gives
  level 1; the code computes the score \<open>50 - 2^-47\<close> and returns level 0.
\<close>

theorem weighted_sum_50_level_0:
  "0 \<le> PM2_5 (zero_sample\<lparr>PM2_5 := 5, PM10 := 154, NO2 := 88, O3 := 178\<rparr>) \<and>
   0 \<le> PM10 (zero_sample\<lparr>PM2_5 := 5, PM10 := 154, NO2 := 88, O3 := 178\<rparr>) \<and>
   0 \<le> NO2 (zero_sample\<lparr>PM2_5 := 5, PM10 := 154, NO2 := 88, O3 := 178\<rparr>) \<and>
   0 \<le> O3 (zero_sample\<lparr>PM2_5 := 5, PM10 := 154, NO2 := 88, O3 := 178\<rparr>) \<and>
   weighted_sum (zero_sample\<lparr>PM2_5 := 5, PM10 := 154, NO2 := 88, O3 := 178\<rparr>) = 50 \<and>
   aqi_score (zero_sample\<lparr>PM2_5 := 5, PM10 := 154, NO2 := 88, O3 := 178\<rparr>) = 50 - 1 / 2 ^ 47 \<and>
   compute_aqi_level (zero_sample\<lparr>PM2_5 := 5, PM10 := 154, NO2 := 88, O3 := 178\<rparr>) = 0 \<and>
   compute_aqi_level (zero_sample\<lparr>PM2_5 := 5, PM10 := 154, NO2 := 88, O3 := 178\<rparr>) \<noteq> 1"
proof -
  let ?s = "zero_sample\<lparr>PM2_5 := 5, PM10 := 154, NO2 := 88, O3 := 178\<rparr>"
  have sc: "aqi_score ?s = 7036874417766399 / 2 ^ 47"
    by (rule aqi_score_at_in_range) simp_all
  have w: "weighted_sum ?s = 50"
    by (simp add: weighted_sum_def)
  have l: "compute_aqi_level ?s = 0"
    by (simp add: compute_aqi_level_def sc)
  show ?thesis
    using w l by (simp add: sc)
qed

text \<open>
  C10. The AQI-level function is total and monotone: on every sample, whatever its
  real pollutant values (a negative score included), it returns one of 0, 1, 2, 3, and
  raising one of PM2.5, PM10, NO2 or O3 with the other fields fixed never lowers the
  level.
\<close>

theorem aqi_level_total_monotone:
  "compute_aqi_level s \<in> {0, 1, 2, 3} \<and>
   (x \<le> y \<longrightarrow>
      compute_aqi_level (s\<lparr>PM2_5 := x\<rparr>) \<le> compute_aqi_level (s\<lparr>PM2_5 := y\<rparr>) \<and>
      compute_aqi_level (s\<lparr>PM10 := x\<rparr>) \<le> compute_aqi_level (s\<lparr>PM10 := y\<rparr>) \<and>
      compute_aqi_level (s\<lparr>NO2 := x\<rparr>) \<le> compute_aqi_level (s\<lparr>NO2 := y\<rparr>) \<and>
      compute_aqi_level (s\<lparr>O3 := x\<rparr>) \<le> compute_aqi_level (s\<lparr>O3 := y\<rparr>))"
proof -
  have "compute_aqi_level (s\<lparr>PM2_5 := x\<rparr>) \<le> compute_aqi_level (s\<lparr>PM2_5 := y\<rparr>)" if "x \<le> y"
    by (rule compute_aqi_level_mono, rule aqi_score_mono) (simp_all add: that)
  moreover have "compute_aqi_level (s\<lparr>PM10 := x\<rparr>) \<le> compute_aqi_level (s\<lparr>PM10 := y\<rparr>)" if "x \<le> y"
    by (rule compute_aqi_level_mono, rule aqi_score_mono) (simp_all add: that)
  moreover have "compute_aqi_level (s\<lparr>NO2 := x\<rparr>) \<le> compute_aqi_level (s\<lparr>NO2 := y\<rparr>)" if "x \<le> y"
    by (rule compute_aqi_level_mono, rule aqi_score_mono) (simp_all add: that)
  moreover have "compute_aqi_level (s\<lparr>O3 := x\<rparr>) \<le> compute_aqi_level (s\<lparr>O3 := y\<rparr>)" if "x \<le> y"
    by (rule compute_aqi_level_mono, rule aqi_score_mono) (simp_all add: that)
  ultimately show ?thesis
    using compute_aqi_level_range [of s] by blast
qed

theorem aqi_level_total_monotone_witness:
  "compute_aqi_level (zero_sample\<lparr>PM2_5 := - 10\<rparr>) = 0 \<and>
   compute_aqi_level (zero_sample\<lparr>PM2_5 := 400\<rparr>) = 2 \<and>
   compute_aqi_level (zero_sample\<lparr>PM2_5 := - 10\<rparr>) \<le> compute_aqi_level (zero_sample\<lparr>PM2_5 := 400\<rparr>)"
proof -
  have "compute_aqi_level (zero_sample\<lparr>PM2_5 := - 10\<rparr>) \<le> compute_aqi_level (zero_sample\<lparr>PM2_5 := 400\<rparr>)"
    using aqi_level_total_monotone [of zero_sample "- 10" 400] by simp
  moreover have "aqi_score (zero_sample\<lparr>PM2_5 := - 10\<rparr>) = - 3"
    by (rule aqi_score_at_pm25_neg) simp_all
  then have "compute_aqi_level (zero_sample\<lparr>PM2_5 := - 10\<rparr>) = 0"
    by (simp add: compute_aqi_level_def)
  moreover have "aqi_score (zero_sample\<lparr>PM2_5 := 400\<rparr>) = 120"
    by (rule aqi_score_at_pm25_400) simp_all
  then have "compute_aqi_level (zero_sample\<lparr>PM2_5 := 400\<rparr>) = 2"
    by (simp add: compute_aqi_level_def)
  ultimately show ?thesis by blast
qed

section \<open>The metrics engine\<close>

subsection \<open>What the loops compute\<close>

lemma count_where_Nil: "count_where P [] ps = 0"
  by (simp add: count_where_def)

lemma count_where_Cons:
  "count_where P (t # ts) (p # ps) = (if P t p then 1 else 0) + count_where P ts ps"
  by (simp add: count_where_def)

lemma count_where_same: "count_where P ys ys = int (length (filter (\<lambda>v. P v v) ys))"
  by (induction ys) (simp_all add: count_where_def)

lemma count_where_absent:
  assumes "\<And>t p. P t p \<Longrightarrow> t = label \<or> p = label"
    and "label \<notin> set y_true" and "label \<notin> set y_pred"
  shows "count_where P y_true y_pred = 0"
  unfolding count_where_def
  using assms by (auto simp: filter_empty_conv dest: set_zip_leftD set_zip_rightD)

text \<open>The loop invariant: from position \<open>i\<close> on, the loop adds to its three counters
  the counts over the rest of the two sequences.\<close>

lemma count_loop_inv:
  "i \<le> length y_true \<Longrightarrow> length y_true \<le> length y_pred \<Longrightarrow>
   count_loop y_true y_pred label i (tp, fp, fn) =
     Some (tp + count_where (\<lambda>t p. t = label \<and> p = label) (drop i y_true) (drop i y_pred),
           fp + count_where (\<lambda>t p. t \<noteq> label \<and> p = label) (drop i y_true) (drop i y_pred),
           fn + count_where (\<lambda>t p. t = label \<and> p \<noteq> label) (drop i y_true) (drop i y_pred))"
proof (induction "length y_true - i" arbitrary: i tp fp fn)
  case 0
  then have "i = length y_true" by simp
  then show ?case
    by (simp add: count_loop.simps count_where_Nil)
next
  case (Suc k)
  then have lt: "i < length y_true" and lp: "i < length y_pred" by simp_all
  have dt: "drop i y_true = y_true ! i # drop (Suc i) y_true"
    using lt by (simp add: Cons_nth_drop_Suc)
  have dp: "drop i y_pred = y_pred ! i # drop (Suc i) y_pred"
    using lp by (simp add: Cons_nth_drop_Suc)
  have k: "k = length y_true - Suc i" using Suc.hyps(2) by simp
  have le: "Suc i \<le> length y_true" using lt by simp
  note IH = Suc.hyps(1) [OF k le Suc.prems(2)]
  show ?case
    using lt lp
    by (subst count_loop.simps) (simp add: Let_def IH dt dp count_where_Cons)
qed

lemma count_loop_counts:
  "length y_true \<le> length y_pred \<Longrightarrow>
   count_loop y_true y_pred label 0 (0, 0, 0) =
     Some (true_positives y_true y_pred label, false_positives y_true y_pred label,
           false_negatives y_true y_pred label)"
  by (simp add: count_loop_inv true_positives_def false_positives_def false_negatives_def)

text \<open>A read past the end of \<open>y_pred\<close> is reached exactly when it is the shorter
  sequence.\<close>

lemma count_loop_short:
  "i \<le> length y_pred \<Longrightarrow> length y_pred < length y_true \<Longrightarrow>
   count_loop y_true y_pred label i c = None"
proof (induction "length y_pred - i" arbitrary: i c)
  case 0
  then have "i = length y_pred" by simp
  then show ?case
    using "0.prems" by (cases c) (simp add: count_loop.simps)
next
  case (Suc k)
  obtain tp fp fn where c: "c = (tp, fp, fn)" by (cases c) auto
  have lp: "i < length y_pred" using Suc.hyps(2) by simp
  have k: "k = length y_pred - Suc i" using Suc.hyps(2) by simp
  have le: "Suc i \<le> length y_pred" using lp by simp
  show ?case
    unfolding c using lp Suc.prems(2)
    by (subst count_loop.simps) (simp add: Let_def Suc.hyps(1) [OF k le Suc.prems(2)])
qed

lemma support_loop_fold:
  "fold (\<lambda>v n. if v = label then n + 1 else n) ys a =
     a + int (length (filter (\<lambda>v. v = label) ys))"
  by (induction ys arbitrary: a) simp_all

lemma support_loop_eq: "support_loop y_true label = support_count y_true label"
  by (simp add: support_loop_def support_loop_fold support_count_def)

lemma compute_metrics_eq:
  assumes "length y_true \<le> length y_pred"
  shows "compute_metrics_for_label y_true y_pred label =
     Some \<lparr>precision = ratio (true_positives y_true y_pred label)
                           (true_positives y_true y_pred label + false_positives y_true y_pred label),
           recall = ratio (true_positives y_true y_pred label)
                           (true_positives y_true y_pred label + false_negatives y_true y_pred label),
           f1 = harmonic
                  (ratio (true_positives y_true y_pred label)
                           (true_positives y_true y_pred label + false_positives y_true y_pred label))
                  (ratio (true_positives y_true y_pred label)
                           (true_positives y_true y_pred label + false_negatives y_true y_pred label)),
           support = support_count y_true label\<rparr>"
  by (simp add: compute_metrics_for_label_def count_loop_counts [OF assms] support_loop_eq
      ratio_def harmonic_def Let_def)

lemma compute_metrics_support:
  "compute_metrics_for_label y_true y_pred label = Some m \<Longrightarrow>
   support m = support_count y_true label"
  by (auto simp: compute_metrics_for_label_def support_loop_eq Let_def split: option.splits)

lemma compute_metrics_short:
  "length y_pred < length y_true \<Longrightarrow> compute_metrics_for_label y_true y_pred label = None"
  by (simp add: compute_metrics_for_label_def count_loop_short)

lemma correct_loop_inv:
  "i \<le> length y_true \<Longrightarrow> length y_true \<le> length y_pred \<Longrightarrow>
   correct_loop y_true y_pred i c =
     Some (c + count_where (\<lambda>t p. t = p) (drop i y_true) (drop i y_pred))"
proof (induction "length y_true - i" arbitrary: i c)
  case 0
  then have "i = length y_true" by simp
  then show ?case
    by (simp add: correct_loop.simps count_where_Nil)
next
  case (Suc k)
  then have lt: "i < length y_true" and lp: "i < length y_pred" by simp_all
  have dt: "drop i y_true = y_true ! i # drop (Suc i) y_true"
    using lt by (simp add: Cons_nth_drop_Suc)
  have dp: "drop i y_pred = y_pred ! i # drop (Suc i) y_pred"
    using lp by (simp add: Cons_nth_drop_Suc)
  have k: "k = length y_true - Suc i" using Suc.hyps(2) by simp
  have le: "Suc i \<le> length y_true" using lt by simp
  note IH = Suc.hyps(1) [OF k le Suc.prems(2)]
  show ?case
    using lt lp
    by (subst correct_loop.simps) (simp add: Let_def IH dt dp count_where_Cons)
qed

lemma accuracy_eq:
  "length y_true \<le> length y_pred \<Longrightarrow>
   accuracy y_true y_pred =
     Some (double_div (real_of_int (count_where (\<lambda>t p. t = p) y_true y_pred))
             (real (length y_true)))"
  by (simp add: accuracy_def correct_loop_inv)

text \<open>The counters never exceed the number of positions: with fewer than \<open>2^31\<close> labels
  no C++ \<^verbatim>\<open>int\<close> of the function overflows.\<close>

lemma counters_bounded_zip:
  "int (length (filter (\<lambda>(t, p). t = label \<and> p = label) zs)) +
   int (length (filter (\<lambda>(t, p). t \<noteq> label \<and> p = label) zs)) +
   int (length (filter (\<lambda>(t, p). t = label \<and> p \<noteq> label) zs)) \<le> int (length zs)"
  by (induction zs) auto

lemma counters_bounded:
  "0 \<le> true_positives y_true y_pred label"
  "0 \<le> false_positives y_true y_pred label"
  "0 \<le> false_negatives y_true y_pred label"
  "true_positives y_true y_pred label + false_positives y_true y_pred label
     + false_negatives y_true y_pred label \<le> int (length y_true)"
  "0 \<le> support_count y_true label" "support_count y_true label \<le> int (length y_true)"
proof -
  have "int (length (zip y_true y_pred)) \<le> int (length y_true)" by simp
  then show "true_positives y_true y_pred label + false_positives y_true y_pred label
     + false_negatives y_true y_pred label \<le> int (length y_true)"
    unfolding true_positives_def false_positives_def false_negatives_def count_where_def
    using counters_bounded_zip [of label "zip y_true y_pred"] by linarith
qed (simp_all add: true_positives_def false_positives_def false_negatives_def count_where_def
    support_count_def)

lemmas count_simps =
  support_count_def true_positives_def false_positives_def false_negatives_def
  count_where_def ratio_def harmonic_def

subsection \<open>Per-label metrics\<close>

text \<open>
  C3. For two label sequences of equal length and any target label, the counting loop
  ends with \<open>tp\<close>, \<open>fp\<close> and \<open>fn\<close> as defined below, and the per-label
  operation returns a result (no read out of range), with support the number of
  positions whose true label is the target, precision \<open>tp/(tp+fp)\<close>, recall
  \<open>tp/(tp+fn)\<close> and F1 \<open>2*precision*recall/(precision+recall)\<close>, each 0 when its
  denominator is 0, where \<open>tp\<close>, \<open>fp\<close> and \<open>fn\<close> count the positions where both labels,
  only the predicted one, and only the true one equal the target. For a label that
  occurs in neither sequence, precision, recall, F1 and support are all 0.
\<close>

theorem metrics_for_label_correct:
  assumes "length y_true = length y_pred"
  shows "count_loop y_true y_pred label 0 (0, 0, 0) =
           Some (true_positives y_true y_pred label, false_positives y_true y_pred label,
                 false_negatives y_true y_pred label) \<and>
         (\<exists>m. compute_metrics_for_label y_true y_pred label = Some m \<and>
           support m = support_count y_true label \<and>
           precision m = ratio (true_positives y_true y_pred label)
                           (true_positives y_true y_pred label + false_positives y_true y_pred label) \<and>
           recall m = ratio (true_positives y_true y_pred label)
                           (true_positives y_true y_pred label + false_negatives y_true y_pred label) \<and>
           f1 m = harmonic (precision m) (recall m) \<and>
           (label \<notin> set y_true \<and> label \<notin> set y_pred \<longrightarrow>
              precision m = 0 \<and> recall m = 0 \<and> f1 m = 0 \<and> support m = 0))"
proof -
  have le: "length y_true \<le> length y_pred" using assms by simp
  have absent: "true_positives y_true y_pred label = 0 \<and> support_count y_true label = 0"
    if "label \<notin> set y_true" "label \<notin> set y_pred"
    using that count_where_absent [of "\<lambda>t p. t = label \<and> p = label" label y_true y_pred]
    by (auto simp: true_positives_def support_count_def filter_empty_conv)
  show ?thesis
    unfolding compute_metrics_eq [OF le] count_loop_counts [OF le]
    using absent by (auto simp: ratio_def harmonic_def)
qed

theorem metrics_for_label_correct_witness:
  "length [0, 1, 2, 1 :: int] = length [0, 1, 1, 1 :: int] \<and>
   (\<exists>m. compute_metrics_for_label [0, 1, 2, 1] [0, 1, 1, 1] 1 = Some m \<and>
        support m = 2 \<and> precision m = 2 / 3 \<and> recall m = 1 \<and> f1 m = 4 / 5) \<and>
   (\<exists>m. compute_metrics_for_label [0, 1, 2, 1] [0, 1, 1, 1] 3 = Some m \<and>
        support m = 0 \<and> precision m = 0 \<and> recall m = 0 \<and> f1 m = 0)"
proof -
  have len: "length [0, 1, 2, 1 :: int] = length [0, 1, 1, 1 :: int]" by simp
  obtain m where m: "compute_metrics_for_label [0, 1, 2, 1] [0, 1, 1, 1] 1 = Some m"
      "support m = support_count [0, 1, 2, 1] 1"
      "precision m = ratio (true_positives [0, 1, 2, 1] [0, 1, 1, 1] 1)
         (true_positives [0, 1, 2, 1] [0, 1, 1, 1] 1 + false_positives [0, 1, 2, 1] [0, 1, 1, 1] 1)"
      "recall m = ratio (true_positives [0, 1, 2, 1] [0, 1, 1, 1] 1)
         (true_positives [0, 1, 2, 1] [0, 1, 1, 1] 1 + false_negatives [0, 1, 2, 1] [0, 1, 1, 1] 1)"
      "f1 m = harmonic (precision m) (recall m)"
    using metrics_for_label_correct [OF len, of 1] by blast
  have p: "precision m = 2 / 3" unfolding m(3) by (simp add: count_simps)
  have r: "recall m = 1" unfolding m(4) by (simp add: count_simps)
  have f: "f1 m = 4 / 5" unfolding m(5) p r by (simp add: harmonic_def)
  have s: "support m = 2" unfolding m(2) by (simp add: count_simps)
  have a: "\<exists>m. compute_metrics_for_label [0, 1, 2, 1] [0, 1, 1, 1] 1 = Some m \<and>
        support m = 2 \<and> precision m = 2 / 3 \<and> recall m = 1 \<and> f1 m = 4 / 5"
    using m(1) p r f s by blast
  have b: "\<exists>m. compute_metrics_for_label [0, 1, 2, 1] [0, 1, 1, 1] 3 = Some m \<and>
        support m = 0 \<and> precision m = 0 \<and> recall m = 0 \<and> f1 m = 0"
    using metrics_for_label_correct [OF len, of 3] by auto
  show ?thesis using len a b by blast
qed

subsection \<open>Identical sequences\<close>

lemma true_positives_same: "true_positives ys ys label = support_count ys label"
  by (simp add: true_positives_def count_where_same support_count_def)

lemma false_positives_same: "false_positives ys ys label = 0"
  by (simp add: false_positives_def count_where_same)

lemma false_negatives_same: "false_negatives ys ys label = 0"
  by (simp add: false_negatives_def count_where_same)

lemma accuracy_same: "ys \<noteq> [] \<Longrightarrow> accuracy ys ys = Some (Finite 1)"
  by (simp add: accuracy_eq count_where_same double_div_def)

lemma compute_metrics_same:
  "compute_metrics_for_label ys ys label =
     Some \<lparr>precision = ratio (support_count ys label) (support_count ys label),
           recall = ratio (support_count ys label) (support_count ys label),
           f1 = harmonic (ratio (support_count ys label) (support_count ys label))
                  (ratio (support_count ys label) (support_count ys label)),
           support = support_count ys label\<rparr>"
  by (simp add: compute_metrics_eq true_positives_same false_positives_same false_negatives_same)

subsection \<open>Supports\<close>

lemma support_count_Cons:
  "support_count (v # ys) label = (if v = label then 1 else 0) + support_count ys label"
  by (simp add: support_count_def)

lemma support_count_sum4:
  "set ys \<subseteq> {0, 1, 2, 3} \<Longrightarrow>
   support_count ys 0 + support_count ys 1 + support_count ys 2 + support_count ys 3
     = int (length ys)"
  by (induction ys) (auto simp: support_count_Cons, simp add: support_count_def)

lemma support_count_sum3:
  "set ys \<subseteq> {0, 1, 2} \<Longrightarrow>
   support_count ys 0 + support_count ys 1 + support_count ys 2 = int (length ys)"
  by (induction ys) (auto simp: support_count_Cons, simp add: support_count_def)

section \<open>The driver\<close>

subsection \<open>Samples and their labels\<close>

lemma labelled_label_sample: "labelled (label_sample s)"
  by (simp add: labelled_def label_sample_def Let_def)

lemma label_sample_ignores_labels:
  "label_sample (s\<lparr>AQI_Level := a, Health_Risk := h\<rparr>) = label_sample s"
  by (simp add: label_sample_def Let_def compute_aqi_level_def aqi_score_def
      compute_health_risk_def)

lemma length_generate: "length (generate draw) = N"
  by (simp add: generate_def)

lemma generate_labelled: "s \<in> set (generate draw) \<Longrightarrow> labelled s"
  by (auto simp: generate_def labelled_label_sample)

lemma mset_shuffle_by:
  assumes "mset perm = mset [0..<length xs]"
  shows "mset (shuffle_by perm xs) = mset xs"
proof -
  have "mset (map (\<lambda>i. xs ! i) perm) = image_mset (\<lambda>i. xs ! i) (mset perm)"
    by simp
  also have "\<dots> = mset (map (\<lambda>i. xs ! i) [0..<length xs])"
    unfolding assms by simp
  also have "\<dots> = mset xs"
    by (simp add: map_nth)
  finally show ?thesis
    by (simp add: shuffle_by_def)
qed

lemma mset_shuffled:
  "mset perm = mset [0..<N] \<Longrightarrow> mset (shuffled draw perm) = mset (generate draw)"
  by (simp add: shuffled_def mset_shuffle_by length_generate)

lemma train_test_split: "train draw perm @ test draw perm = shuffled draw perm"
  by (simp add: train_def test_def)

lemma weight_08: "round64 (4 / 5) = 3602879701896397 / 2 ^ 52"
  by (subst round64_eval [where k = "- 1"]) (simp_all add: emin_def rne_def Let_def)

lemma train_size_value: "train_size = 1200"
proof -
  have "fmul (round64 (4 / 5)) 1500 = 1200"
    unfolding fmul_def weight_08
    by (subst round64_eval [where k = "10"]) (simp_all add: emin_def rne_def Let_def)
  then show ?thesis
    by (simp add: train_size_def N_def)
qed

lemma length_shuffled:
  assumes "mset perm = mset [0..<N]"
  shows "length (shuffled draw perm) = N"
proof -
  have "size (mset (shuffled draw perm)) = size (mset (generate draw))"
    using mset_shuffled [OF assms] by simp
  then show ?thesis
    by (simp add: length_generate)
qed

lemma length_test: "mset perm = mset [0..<N] \<Longrightarrow> length (test draw perm) = 300"
  by (simp add: test_def length_shuffled train_size_value) (simp add: N_def)

lemma shuffled_labelled:
  assumes "mset perm = mset [0..<N]" and "s \<in> set (shuffled draw perm)"
  shows "labelled s"
proof -
  have "set (shuffled draw perm) = set (generate draw)"
    using mset_shuffled [OF assms(1)] by (rule mset_eq_setD)
  then show ?thesis
    using assms(2) generate_labelled by blast
qed

lemma test_labelled:
  "mset perm = mset [0..<N] \<Longrightarrow> s \<in> set (test draw perm) \<Longrightarrow> labelled s"
  unfolding test_def by (blast intro: shuffled_labelled dest: in_set_dropD)

lemma train_labelled:
  "mset perm = mset [0..<N] \<Longrightarrow> s \<in> set (train draw perm) \<Longrightarrow> labelled s"
  unfolding train_def by (blast intro: shuffled_labelled dest: in_set_takeD)

lemma interactive_sample_labelled: "labelled (interactive_sample extract input s0)"
  by (simp add: interactive_sample_def Let_def labelled_label_sample)

text \<open>
  C6. Every sample of the program is labelled by the two rule functions from the moment
  its labels are set: each of the 1500 generated samples, in the data set as generated,
  after the shuffle and in the train and test partitions (which together hold exactly
  the generated samples, unchanged), and the interactive sample. The labels do not
  depend on what the label fields held before: they are never supplied from outside.
\<close>

theorem samples_labelled_by_rules:
  assumes "mset perm = mset [0..<N]"
  shows "length (generate draw) = 1500 \<and>
         (\<forall>s \<in> set (generate draw). labelled s) \<and>
         (\<forall>s \<in> set (shuffled draw perm). labelled s) \<and>
         (\<forall>s \<in> set (train draw perm) \<union> set (test draw perm). labelled s) \<and>
         mset (train draw perm) + mset (test draw perm) = mset (generate draw) \<and>
         labelled (interactive_sample extract input s0) \<and>
         label_sample (s\<lparr>AQI_Level := a, Health_Risk := h\<rparr>) = label_sample s"
proof -
  have "mset (train draw perm) + mset (test draw perm) = mset (shuffled draw perm)"
    using train_test_split [of draw perm] by (metis mset_append)
  then have "mset (train draw perm) + mset (test draw perm) = mset (generate draw)"
    using mset_shuffled [OF assms] by simp
  moreover have "length (generate draw) = 1500"
    by (simp add: length_generate N_def)
  moreover have "\<forall>s \<in> set (train draw perm) \<union> set (test draw perm). labelled s"
    using train_labelled [OF assms] test_labelled [OF assms] by blast
  ultimately show ?thesis
    using generate_labelled shuffled_labelled [OF assms] interactive_sample_labelled
      label_sample_ignores_labels by blast
qed

theorem samples_labelled_by_rules_witness:
  "mset (rev [0..<N]) = mset [0..<N] \<and>
   length (generate constant_draw) = 1500 \<and>
   labelled (generate constant_draw ! 0) \<and>
   labelled (test constant_draw (rev [0..<N]) ! 299) \<and>
   mset (train constant_draw (rev [0..<N])) + mset (test constant_draw (rev [0..<N]))
     = mset (generate constant_draw) \<and>
   labelled (interactive_sample extract_sample [''33 65 550 150 180 80 60 3.5 1''] zero_sample)"
proof -
  have perm: "mset (rev [0..<N]) = mset [0..<N]" by simp
  note inst = samples_labelled_by_rules [OF perm, of constant_draw extract_sample
      "[''33 65 550 150 180 80 60 3.5 1'']" zero_sample]
  have "generate constant_draw ! 0 \<in> set (generate constant_draw)"
    by (rule nth_mem) (simp add: length_generate N_def)
  then have g: "labelled (generate constant_draw ! 0)"
    using inst by blast
  have "test constant_draw (rev [0..<N]) ! 299 \<in> set (test constant_draw (rev [0..<N]))"
    by (rule nth_mem) (simp add: length_test [OF perm])
  then have t: "labelled (test constant_draw (rev [0..<N]) ! 299)"
    using inst by blast
  show ?thesis
    using perm inst g t by blast
qed

subsection \<open>The predictor is the rule\<close>

lemma predictions_are_ground_truth:
  assumes "\<forall>s \<in> set ts. labelled s"
  shows "y_pred_aqi ts = y_true_aqi ts" and "y_pred_hr ts = y_true_hr ts"
  using assms by (simp_all add: y_pred_aqi_def y_true_aqi_def y_pred_hr_def y_true_hr_def labelled_def)

lemma labelled_ranges:
  assumes "labelled s"
  shows "AQI_Level s \<in> {0, 1, 2, 3}" and "Health_Risk s \<in> {0, 1, 2}"
proof -
  show a: "AQI_Level s \<in> {0, 1, 2, 3}"
    using assms compute_aqi_level_range [of s] by (simp add: labelled_def)
  show "Health_Risk s \<in> {0, 1, 2}"
    using assms compute_health_risk_range [OF a] by (simp add: labelled_def)
qed

text \<open>On the test partition of the driver the predicted sequences are the true ones,
  both accuracies are 1, and the true labels lie in their label spaces.\<close>

lemma driver_evaluation:
  assumes "mset perm = mset [0..<N]"
  shows "y_pred_aqi (test draw perm) = y_true_aqi (test draw perm)"
    and "y_pred_hr (test draw perm) = y_true_hr (test draw perm)"
    and "length (y_true_aqi (test draw perm)) = 300"
    and "acc_aqi (evaluate (test draw perm)) = Some (Finite 1)"
    and "acc_hr (evaluate (test draw perm)) = Some (Finite 1)"
    and "set (y_true_aqi (test draw perm)) \<subseteq> {0, 1, 2, 3}"
    and "set (y_true_hr (test draw perm)) \<subseteq> {0, 1, 2}"
proof -
  have lab: "\<forall>s \<in> set (test draw perm). labelled s"
    using test_labelled [OF assms] by blast
  show pa: "y_pred_aqi (test draw perm) = y_true_aqi (test draw perm)"
    and ph: "y_pred_hr (test draw perm) = y_true_hr (test draw perm)"
    using predictions_are_ground_truth [OF lab] by simp_all
  show len: "length (y_true_aqi (test draw perm)) = 300"
    by (simp add: y_true_aqi_def length_test [OF assms])
  have ne: "y_true_aqi (test draw perm) \<noteq> []" "y_true_hr (test draw perm) \<noteq> []"
    using length_test [OF assms, of draw] by (auto simp: y_true_aqi_def y_true_hr_def)
  show "acc_aqi (evaluate (test draw perm)) = Some (Finite 1)"
    by (simp add: evaluate_def pa accuracy_same [OF ne(1)])
  show "acc_hr (evaluate (test draw perm)) = Some (Finite 1)"
    by (simp add: evaluate_def ph accuracy_same [OF ne(2)])
  show "set (y_true_aqi (test draw perm)) \<subseteq> {0, 1, 2, 3}"
    using lab labelled_ranges(1) by (auto simp: y_true_aqi_def)
  show "set (y_true_hr (test draw perm)) \<subseteq> {0, 1, 2}"
    using lab labelled_ranges(2) by (auto simp: y_true_hr_def)
qed

subsection \<open>The evaluation report\<close>

lemma perfect_row:
  "\<exists>m. compute_metrics_for_label ys ys label = Some m \<and>
       (0 < support m \<longrightarrow> precision m = 1 \<and> recall m = 1 \<and> f1 m = 1)"
  unfolding compute_metrics_same by (simp add: ratio_def harmonic_def)

lemma support_rows4:
  assumes "length y_true = length y_pred" and "set y_true \<subseteq> {0, 1, 2, 3}"
  shows "\<exists>m0 m1 m2 m3.
           map (compute_metrics_for_label y_true y_pred) [0, 1, 2, 3]
             = [Some m0, Some m1, Some m2, Some m3] \<and>
           support m0 + support m1 + support m2 + support m3 = int (length y_true)"
proof -
  have le: "length y_true \<le> length y_pred" using assms(1) by simp
  show ?thesis
    unfolding list.map compute_metrics_eq [OF le]
    using support_count_sum4 [OF assms(2)] by simp
qed

lemma support_rows3:
  assumes "length y_true = length y_pred" and "set y_true \<subseteq> {0, 1, 2}"
  shows "\<exists>m0 m1 m2.
           map (compute_metrics_for_label y_true y_pred) [0, 1, 2]
             = [Some m0, Some m1, Some m2] \<and>
           support m0 + support m1 + support m2 = int (length y_true)"
proof -
  have le: "length y_true \<le> length y_pred" using assms(1) by simp
  show ?thesis
    unfolding list.map compute_metrics_eq [OF le]
    using support_count_sum3 [OF assms(2)] by simp
qed

text \<open>
  C4. When the predicted sequence is the true sequence itself, the overall accuracy of
  a non-empty sequence is 1, and for every target label whose support is positive the
  per-label precision, recall and F1 are each 1. The driver always produces such
  pairs: on its test partition the predicted sequences are the true ones, both
  accuracies of the report are 1, and every row of the two classification reports
  with a positive support has precision, recall and F1 equal to 1.
\<close>

theorem identical_sequences_score_one:
  "(ys \<noteq> [] \<longrightarrow> accuracy ys ys = Some (Finite 1)) \<and>
   (\<exists>m. compute_metrics_for_label ys ys label = Some m \<and>
        (0 < support m \<longrightarrow> precision m = 1 \<and> recall m = 1 \<and> f1 m = 1)) \<and>
   (mset perm = mset [0..<N] \<longrightarrow>
      y_pred_aqi (test draw perm) = y_true_aqi (test draw perm) \<and>
      y_pred_hr (test draw perm) = y_true_hr (test draw perm) \<and>
      acc_aqi (evaluate (test draw perm)) = Some (Finite 1) \<and>
      acc_hr (evaluate (test draw perm)) = Some (Finite 1) \<and>
      (\<forall>r \<in> set (aqi_rows (evaluate (test draw perm)))
              \<union> set (hr_rows (evaluate (test draw perm))).
         \<exists>m. r = Some m \<and>
             (0 < support m \<longrightarrow> precision m = 1 \<and> recall m = 1 \<and> f1 m = 1)))"
proof -
  have rows: "\<forall>r \<in> set (aqi_rows (evaluate (test draw perm)))
              \<union> set (hr_rows (evaluate (test draw perm))).
         \<exists>m. r = Some m \<and>
             (0 < support m \<longrightarrow> precision m = 1 \<and> recall m = 1 \<and> f1 m = 1)"
    if p: "mset perm = mset [0..<N]"
    using perfect_row
    by (auto simp: evaluate_def driver_evaluation(1,2) [OF p])
  show ?thesis
    using accuracy_same [of ys] perfect_row [of ys label] rows
      driver_evaluation(1,2,4,5) [of perm draw]
    by blast
qed

theorem identical_sequences_score_one_witness:
  "accuracy [0, 2, 2, 1] [0, 2, 2, 1] = Some (Finite 1) \<and>
   (\<exists>m. compute_metrics_for_label [0, 2, 2, 1] [0, 2, 2, 1] 2 = Some m \<and>
        support m = 2 \<and> precision m = 1 \<and> recall m = 1 \<and> f1 m = 1) \<and>
   mset (rev [0..<N]) = mset [0..<N] \<and>
   y_pred_aqi (test constant_draw (rev [0..<N])) = y_true_aqi (test constant_draw (rev [0..<N])) \<and>
   acc_aqi (evaluate (test constant_draw (rev [0..<N]))) = Some (Finite 1) \<and>
   acc_hr (evaluate (test constant_draw (rev [0..<N]))) = Some (Finite 1)"
proof -
  have perm: "mset (rev [0..<N]) = mset [0..<N]" by simp
  note inst = identical_sequences_score_one [of "[0, 2, 2, 1]" 2 "rev [0..<N]" constant_draw]
  obtain m where m: "compute_metrics_for_label [0, 2, 2, 1] [0, 2, 2, 1] 2 = Some m"
      "0 < support m \<longrightarrow> precision m = 1 \<and> recall m = 1 \<and> f1 m = 1"
    using inst by blast
  have s: "support m = 2"
    using compute_metrics_support [OF m(1)] by (simp add: support_count_def)
  have a: "accuracy [0, 2, 2, 1] [0, 2, 2, 1] = Some (Finite 1)"
    using inst by simp
  have b: "\<exists>m. compute_metrics_for_label [0, 2, 2, 1] [0, 2, 2, 1] 2 = Some m \<and>
        support m = 2 \<and> precision m = 1 \<and> recall m = 1 \<and> f1 m = 1"
    using m s by auto
  show ?thesis
    using a b perm inst by blast
qed

text \<open>
  C5, as the code has it. For two sequences of equal length that are not empty, the
  accuracy is the number of positions where the two labels agree divided by the
  length. For the empty pair the program makes no test: the division of 0 by 0 gives
  \<open>NaN\<close>; it neither gives 0 nor rejects the input. The driver never gets there: the
  sequences it evaluates hold the 300 labels of the test partition.
\<close>

theorem accuracy_fraction_or_nan:
  "(length y_true = length y_pred \<and> y_true \<noteq> [] \<longrightarrow>
      accuracy y_true y_pred =
        Some (Finite (real_of_int (count_where (\<lambda>t p. t = p) y_true y_pred)
                      / real (length y_true)))) \<and>
   accuracy [] [] = Some NaN \<and>
   (mset perm = mset [0..<N] \<longrightarrow>
      length (y_true_aqi (test draw perm)) = 300 \<and>
      length (y_pred_aqi (test draw perm)) = 300 \<and>
      length (y_true_hr (test draw perm)) = 300 \<and>
      length (y_pred_hr (test draw perm)) = 300)"
proof -
  have "accuracy y_true y_pred =
        Some (Finite (real_of_int (count_where (\<lambda>t p. t = p) y_true y_pred)
                      / real (length y_true)))"
    if "length y_true = length y_pred" and "y_true \<noteq> []"
    using that by (auto simp: accuracy_eq double_div_def)
  moreover have "accuracy [] [] = Some NaN"
    by (simp add: accuracy_eq double_div_def count_where_Nil)
  moreover have "length (y_true_aqi (test draw perm)) = 300 \<and>
      length (y_pred_aqi (test draw perm)) = 300 \<and>
      length (y_true_hr (test draw perm)) = 300 \<and>
      length (y_pred_hr (test draw perm)) = 300"
    if "mset perm = mset [0..<N]"
    by (simp add: y_true_aqi_def y_pred_aqi_def y_true_hr_def y_pred_hr_def length_test [OF that])
  ultimately show ?thesis
    by blast
qed

theorem accuracy_fraction_or_nan_witness:
  "length [1, 2, 3, 0 :: int] = length [1, 3, 3, 0 :: int] \<and>
   accuracy [1, 2, 3, 0] [1, 3, 3, 0] = Some (Finite (3 / 4)) \<and>
   mset (rev [0..<N]) = mset [0..<N] \<and>
   length (y_true_aqi (test constant_draw (rev [0..<N]))) = 300"
proof -
  have perm: "mset (rev [0..<N]) = mset [0..<N]" by simp
  note inst = accuracy_fraction_or_nan [of "[1, 2, 3, 0]" "[1, 3, 3, 0]" "rev [0..<N]" constant_draw]
  have "accuracy [1, 2, 3, 0] [1, 3, 3, 0] = Some (Finite (3 / 4))"
    using inst by (simp add: count_where_def)
  moreover have "length (y_true_aqi (test constant_draw (rev [0..<N]))) = 300"
    using inst perm by blast
  ultimately show ?thesis
    using perm by simp
qed

text \<open>C5 as the specification words it, that the accuracy of the empty pair is 0 or a
  rejection, fails: the value is \<open>NaN\<close>.\<close>

theorem accuracy_empty_is_nan:
  "accuracy [] [] = Some NaN \<and> accuracy [] [] \<noteq> Some (Finite 0) \<and> accuracy [] [] \<noteq> None"
  by (simp add: accuracy_def correct_loop.simps double_div_def)

text \<open>
  C7. For two label sequences of equal length whose true labels all lie in the label
  space (0..3 for the AQI level, 0..2 for the health risk), the supports that the
  per-label operation returns for the labels of the space add up to the length of the
  sequences. In the driver the supports of each of the two reports add up to 300, the
  size of the test partition.
\<close>

theorem supports_sum_to_length:
  "(length y_true = length y_pred \<and> set y_true \<subseteq> {0, 1, 2, 3} \<longrightarrow>
      (\<exists>m0 m1 m2 m3.
         map (compute_metrics_for_label y_true y_pred) [0, 1, 2, 3]
           = [Some m0, Some m1, Some m2, Some m3] \<and>
         support m0 + support m1 + support m2 + support m3 = int (length y_true))) \<and>
   (length y_true = length y_pred \<and> set y_true \<subseteq> {0, 1, 2} \<longrightarrow>
      (\<exists>m0 m1 m2.
         map (compute_metrics_for_label y_true y_pred) [0, 1, 2]
           = [Some m0, Some m1, Some m2] \<and>
         support m0 + support m1 + support m2 = int (length y_true))) \<and>
   (mset perm = mset [0..<N] \<longrightarrow>
      (\<exists>m0 m1 m2 m3.
         aqi_rows (evaluate (test draw perm)) = [Some m0, Some m1, Some m2, Some m3] \<and>
         support m0 + support m1 + support m2 + support m3 = 300) \<and>
      (\<exists>m0 m1 m2.
         hr_rows (evaluate (test draw perm)) = [Some m0, Some m1, Some m2] \<and>
         support m0 + support m1 + support m2 = 300))"
proof -
  have driver: "(\<exists>m0 m1 m2 m3.
         aqi_rows (evaluate (test draw perm)) = [Some m0, Some m1, Some m2, Some m3] \<and>
         support m0 + support m1 + support m2 + support m3 = 300) \<and>
      (\<exists>m0 m1 m2.
         hr_rows (evaluate (test draw perm)) = [Some m0, Some m1, Some m2] \<and>
         support m0 + support m1 + support m2 = 300)"
    if p: "mset perm = mset [0..<N]"
  proof -
    have la: "length (y_true_aqi (test draw perm)) = length (y_pred_aqi (test draw perm))"
      and lh: "length (y_true_hr (test draw perm)) = length (y_pred_hr (test draw perm))"
      by (simp_all add: y_true_aqi_def y_pred_aqi_def y_true_hr_def y_pred_hr_def)
    have na: "int (length (y_true_aqi (test draw perm))) = 300"
      and nh: "int (length (y_true_hr (test draw perm))) = 300"
      by (simp_all add: y_true_aqi_def y_true_hr_def length_test [OF p])
    show ?thesis
      using support_rows4 [OF la driver_evaluation(6) [OF p]]
        support_rows3 [OF lh driver_evaluation(7) [OF p]]
      unfolding na nh by (simp add: evaluate_def)
  qed
  show ?thesis
    using support_rows4 [of y_true y_pred] support_rows3 [of y_true y_pred] driver
    by blast
qed

theorem supports_sum_to_length_witness:
  "length [0, 3, 3, 1, 2 :: int] = length [0, 3, 1, 1, 2 :: int] \<and>
   (\<exists>m0 m1 m2 m3.
      map (compute_metrics_for_label [0, 3, 3, 1, 2] [0, 3, 1, 1, 2]) [0, 1, 2, 3]
        = [Some m0, Some m1, Some m2, Some m3] \<and>
      support m0 + support m1 + support m2 + support m3 = 5) \<and>
   length [0, 2, 1 :: int] = length [1, 2, 1 :: int] \<and>
   (\<exists>m0 m1 m2.
      map (compute_metrics_for_label [0, 2, 1] [1, 2, 1]) [0, 1, 2]
        = [Some m0, Some m1, Some m2] \<and>
      support m0 + support m1 + support m2 = 3) \<and>
   mset (rev [0..<N]) = mset [0..<N] \<and>
   (\<exists>m0 m1 m2 m3.
      aqi_rows (evaluate (test constant_draw (rev [0..<N])))
        = [Some m0, Some m1, Some m2, Some m3] \<and>
      support m0 + support m1 + support m2 + support m3 = 300)"
proof -
  have len4: "length [0, 3, 3, 1, 2 :: int] = length [0, 3, 1, 1, 2 :: int]" by simp
  have len3: "length [0, 2, 1 :: int] = length [1, 2, 1 :: int]" by simp
  have perm: "mset (rev [0..<N]) = mset [0..<N]" by simp
  have a: "\<exists>m0 m1 m2 m3.
      map (compute_metrics_for_label [0, 3, 3, 1, 2] [0, 3, 1, 1, 2]) [0, 1, 2, 3]
        = [Some m0, Some m1, Some m2, Some m3] \<and>
      support m0 + support m1 + support m2 + support m3 = 5"
    using supports_sum_to_length [of "[0, 3, 3, 1, 2]" "[0, 3, 1, 1, 2]"] by simp
  have b: "\<exists>m0 m1 m2.
      map (compute_metrics_for_label [0, 2, 1] [1, 2, 1]) [0, 1, 2]
        = [Some m0, Some m1, Some m2] \<and>
      support m0 + support m1 + support m2 = 3"
    using supports_sum_to_length [of "[0, 2, 1]" "[1, 2, 1]"] by simp
  have c: "\<exists>m0 m1 m2 m3.
      aqi_rows (evaluate (test constant_draw (rev [0..<N])))
        = [Some m0, Some m1, Some m2, Some m3] \<and>
      support m0 + support m1 + support m2 + support m3 = 300"
    using supports_sum_to_length [of "[]" "[]" "rev [0..<N]" constant_draw] perm by blast
  show ?thesis
    using len4 len3 perm a b c by blast
qed

section \<open>The interactive prediction\<close>

lemma demo_sample_fields [simp]:
  "PM2_5 (demo_sample s) = 150" "PM10 (demo_sample s) = 180" "NO2 (demo_sample s) = 80"
  "O3 (demo_sample s) = 60" "CityType (demo_sample s) = 1"
  by (simp_all add: demo_sample_def)

lemma demo_score: "aqi_score (demo_sample s) = 92"
  by (rule aqi_score_at_demo) simp_all

lemma demo_level: "compute_aqi_level (demo_sample s) = 1"
  by (simp add: compute_aqi_level_def demo_score)

lemma demo_labels:
  "AQI_Level (label_sample (demo_sample s)) = 1"
  "Health_Risk (label_sample (demo_sample s)) = 1"
  by (simp_all add: label_sample_def Let_def demo_level compute_health_risk_def)

lemma label_name_values:
  "label_name AQI_labels 0 = Some ''Good''" "label_name AQI_labels 1 = Some ''Moderate''"
  "label_name HR_labels 0 = Some ''Low''" "label_name HR_labels 1 = Some ''Medium''"
  by (simp_all add: label_name_def AQI_labels_def HR_labels_def)

lemma interactive_demo:
  assumes "interactive_sample extract input s0 = label_sample (demo_sample s0)"
  shows "interactive extract input s0 =
     Some \<lparr>aqi_level = 1, aqi_name = ''Moderate'', health_risk = 1, health_name = ''Medium''\<rparr>"
  by (simp add: interactive_def assms demo_labels label_name_values)

lemma read_input_line_single [simp]: "read_input_line [l] = l"
  by (simp add: read_input_line_def)

lemma interactive_sample_demo_line:
  "interactive_sample extract [''demo''] s0 = label_sample (demo_sample s0)"
  by (simp add: interactive_sample_def)

text \<open>The two array reads of the output are in range, so the interactive part always
  produces a prediction.\<close>

lemma interactive_total: "\<exists>p. interactive extract input s0 = Some p"
proof -
  let ?s = "interactive_sample extract input s0"
  have a: "AQI_Level ?s \<in> {0, 1, 2, 3}" and h: "Health_Risk ?s \<in> {0, 1, 2}"
    using labelled_ranges [OF interactive_sample_labelled] by blast+
  have "\<exists>n. label_name AQI_labels (AQI_Level ?s) = Some n"
    using a by (auto simp: label_name_def AQI_labels_def)
  moreover have "\<exists>n. label_name HR_labels (Health_Risk ?s) = Some n"
    using h by (auto simp: label_name_def HR_labels_def)
  ultimately show ?thesis
    by (auto simp: interactive_def Let_def)
qed

text \<open>
  C9. For the demo sample (temperature 33, humidity 65, CO2 550, PM2.5 150, PM10 180,
  NO2 80, O3 60, wind speed 3.5, city type 1) the score is
  \<open>0.3*150 + 0.2*180 + 0.1*80 + 0.05*60 = 92\<close>, the AQI level is 1 and the health risk is
  1, and typing \<^verbatim>\<open>demo\<close> prints level 1 (Moderate) and risk 1 (Medium).
\<close>

theorem demo_sample_pipeline:
  "PM2_5 (demo_sample s0) = 150 \<and> PM10 (demo_sample s0) = 180 \<and>
   NO2 (demo_sample s0) = 80 \<and> O3 (demo_sample s0) = 60 \<and> CityType (demo_sample s0) = 1 \<and>
   aqi_score (demo_sample s0) = 0.3 * 150 + 0.2 * 180 + 0.1 * 80 + 0.05 * 60 \<and>
   aqi_score (demo_sample s0) = 92 \<and>
   AQI_Level (label_sample (demo_sample s0)) = 1 \<and>
   Health_Risk (label_sample (demo_sample s0)) = 1 \<and>
   interactive extract [''demo''] s0 =
     Some \<lparr>aqi_level = 1, aqi_name = ''Moderate'', health_risk = 1, health_name = ''Medium''\<rparr>"
  using interactive_demo [OF interactive_sample_demo_line]
  by (simp add: demo_score demo_labels)

subsection \<open>Lines that fail the extraction\<close>

lemma take_sign_set: "set (snd (take_sign cs)) \<subseteq> set cs"
  by (cases cs) auto

lemma no_digit_takeWhile: "\<forall>c \<in> set cs. \<not> isdigit c \<Longrightarrow> takeWhile isdigit cs = []"
  by (cases cs) auto

lemma no_digit_fraction: "\<forall>c \<in> set cs. \<not> isdigit c \<Longrightarrow> fst (take_fraction cs) = []"
  by (cases cs) (auto simp: takeWhile_eq_Nil_iff)

text \<open>No number can be extracted from text without a digit, so a line without a digit
  (the empty line among them) fails the chain at its first extraction.\<close>

lemma extract_double_no_digit:
  assumes "\<forall>c \<in> set cs. \<not> isdigit c"
  shows "extract_double cs = None"
proof -
  obtain neg r0 where s: "take_sign (dropWhile isspace cs) = (neg, r0)"
    by (cases "take_sign (dropWhile isspace cs)") auto
  have "set r0 \<subseteq> set cs"
    using take_sign_set [of "dropWhile isspace cs"] s set_dropWhileD [of _ isspace cs] by auto
  then have nd: "\<forall>c \<in> set r0. \<not> isdigit c"
    using assms by blast
  have ip: "takeWhile isdigit r0 = []"
    using nd by (rule no_digit_takeWhile)
  have "\<forall>c \<in> set (dropWhile isdigit r0). \<not> isdigit c"
    using nd set_dropWhileD [of _ isdigit r0] by blast
  then have fp: "fst (take_fraction (dropWhile isdigit r0)) = []"
    by (rule no_digit_fraction)
  show ?thesis
    using ip fp by (simp add: extract_double_def s split_beta)
qed

lemma extract_sample_no_digit:
  "\<forall>c \<in> set line. \<not> isdigit c \<Longrightarrow> extract_sample line s0 = None"
  by (simp add: extract_sample_def extract_double_no_digit)

lemma interactive_sample_fallback:
  assumes "extract (read_input_line input) s0 = None"
  shows "interactive_sample extract input s0 = label_sample (demo_sample s0)"
  using assms by (simp add: interactive_sample_def Let_def)

subsection \<open>Text after the ninth value\<close>

lemma isspace_chars:
  assumes "isspace c"
  shows "\<not> isdigit c" "c \<noteq> CHR ''-''" "c \<noteq> CHR ''+''" "c \<noteq> CHR ''.''" "c \<noteq> CHR ''e''"
    "c \<noteq> CHR ''E''" "c \<notin> set ''demo''"
  using assms by (auto simp: isspace_def isdigit_def)

lemma takeWhile_digit_append:
  "\<not> isdigit c \<Longrightarrow> takeWhile isdigit (r @ c # t) = takeWhile isdigit r"
  by (induction r) simp_all

lemma dropWhile_digit_append:
  "\<not> isdigit c \<Longrightarrow> dropWhile isdigit (r @ c # t) = dropWhile isdigit r @ c # t"
  by (induction r) simp_all

lemma take_sign_append:
  "r \<noteq> [] \<Longrightarrow> take_sign (r @ u) = (fst (take_sign r), snd (take_sign r) @ u)"
  by (cases r) simp_all

lemma take_fraction_append:
  assumes "isspace c"
  shows "take_fraction (r @ c # t) = (fst (take_fraction r), snd (take_fraction r) @ c # t)"
  using isspace_chars [OF assms]
  by (cases r) (simp_all add: takeWhile_digit_append dropWhile_digit_append)

lemma take_exponent_append:
  assumes "isspace c" and "take_exponent r = Some (e, r')"
  shows "take_exponent (r @ c # t) = Some (e, r' @ c # t)"
proof (cases r)
  case Nil
  then show ?thesis using assms isspace_chars [OF assms(1)] by simp
next
  case (Cons a cs)
  show ?thesis
  proof (cases "a = CHR ''e'' \<or> a = CHR ''E''")
    case False
    then show ?thesis using assms(2) by (auto simp: Cons)
  next
    case True
    have ne: "cs \<noteq> []"
      using assms(2) True Cons by (auto simp: Let_def)
    show ?thesis
      using assms(2) True Cons isspace_chars [OF assms(1)]
      by (auto simp: Let_def split_beta take_sign_append [OF ne] takeWhile_digit_append
          dropWhile_digit_append split: if_splits)
  qed
qed

lemma dropWhile_space_nonempty:
  "dropWhile isspace cs \<noteq> [] \<Longrightarrow>
     dropWhile isspace (cs @ u) = dropWhile isspace cs @ u"
  by (induction cs) auto

lemma extract_double_append:
  assumes "isspace c" and "extract_double cs = Some (v, r)"
  shows "extract_double (cs @ c # t) = Some (v, r @ c # t)"
proof -
  note ch = isspace_chars [OF assms(1)]
  obtain neg r0 where s: "take_sign (dropWhile isspace cs) = (neg, r0)"
    by (cases "take_sign (dropWhile isspace cs)") auto
  obtain fp r2 where f: "take_fraction (dropWhile isdigit r0) = (fp, r2)"
    by (cases "take_fraction (dropWhile isdigit r0)") auto
  have ne: "dropWhile isspace cs \<noteq> []"
  proof
    assume a: "dropWhile isspace cs = []"
    have "extract_double cs = None"
      unfolding extract_double_def a by simp
    then show False
      using assms(2) by simp
  qed
  have s': "take_sign (dropWhile isspace (cs @ c # t)) = (neg, r0 @ c # t)"
    using s by (simp add: dropWhile_space_nonempty [OF ne] take_sign_append [OF ne])
  have f': "take_fraction (dropWhile isdigit (r0 @ c # t)) = (fp, r2 @ c # t)"
    using f ch(1) by (simp add: dropWhile_digit_append take_fraction_append [OF assms(1)])
  obtain e r3 where x: "take_exponent r2 = Some (e, r3)"
    using assms(2) by (auto simp: extract_double_def s f Let_def split: if_splits option.splits)
  have x': "take_exponent (r2 @ c # t) = Some (e, r3 @ c # t)"
    using assms(1) x by (rule take_exponent_append)
  show ?thesis
    using assms(2) ch(1)
    by (simp add: extract_double_def s s' f f' x x' takeWhile_digit_append Let_def
        split: if_splits)
qed

lemma extract_int_append:
  assumes "isspace c" and "extract_int cs = Some (v, r)"
  shows "extract_int (cs @ c # t) = Some (v, r @ c # t)"
proof -
  note ch = isspace_chars [OF assms(1)]
  obtain neg r0 where s: "take_sign (dropWhile isspace cs) = (neg, r0)"
    by (cases "take_sign (dropWhile isspace cs)") auto
  have ne: "dropWhile isspace cs \<noteq> []"
  proof
    assume a: "dropWhile isspace cs = []"
    have "extract_int cs = None"
      unfolding extract_int_def a by simp
    then show False
      using assms(2) by simp
  qed
  have s': "take_sign (dropWhile isspace (cs @ c # t)) = (neg, r0 @ c # t)"
    using s by (simp add: dropWhile_space_nonempty [OF ne] take_sign_append [OF ne])
  show ?thesis
    using assms(2) ch(1)
    by (simp add: extract_int_def s s' takeWhile_digit_append dropWhile_digit_append Let_def
        split: if_splits)
qed

text \<open>What follows the nine values is never read: white space and any text appended to a
  line that extracts leave the extracted sample as it is.\<close>

lemma extract_sample_append:
  assumes "isspace c" and "extract_sample line s0 = Some s'"
  shows "extract_sample (line @ c # t) s0 = Some s'"
proof -
  note d = extract_double_append [OF assms(1)]
  from assms(2) obtain v1 r1 v2 r2 v3 r3 v4 r4 v5 r5 v6 r6 v7 r7 v8 r8 v9 r9 where
    e: "extract_double line = Some (v1, r1)" "extract_double r1 = Some (v2, r2)"
      "extract_double r2 = Some (v3, r3)" "extract_double r3 = Some (v4, r4)"
      "extract_double r4 = Some (v5, r5)" "extract_double r5 = Some (v6, r6)"
      "extract_double r6 = Some (v7, r7)" "extract_double r7 = Some (v8, r8)"
      "extract_int r8 = Some (v9, r9)"
    and s': "s' = s0\<lparr>Temperature := v1, Humidity := v2, CO2 := v3, PM2_5 := v4, PM10 := v5,
               NO2 := v6, O3 := v7, WindSpeed := v8, CityType := v9\<rparr>"
    unfolding extract_sample_def by (auto simp: bind_eq_Some_conv)
  show ?thesis
    unfolding extract_sample_def
    by (simp add: d [OF e(1)] d [OF e(2)] d [OF e(3)] d [OF e(4)] d [OF e(5)] d [OF e(6)]
        d [OF e(7)] d [OF e(8)] extract_int_append [OF assms(1) e(9)] s')
qed

subsection \<open>The line that is read\<close>

lemma interactive_sample_accepted:
  assumes "read_input_line input \<noteq> ''demo''" and "extract (read_input_line input) s0 = Some s'"
  shows "interactive_sample extract input s0 = label_sample s'"
  using assms by (simp add: interactive_sample_def Let_def)

lemma interactive_names:
  "interactive extract input s0 =
     Some \<lparr>aqi_level = AQI_Level (interactive_sample extract input s0),
           aqi_name = AQI_labels ! nat (AQI_Level (interactive_sample extract input s0)),
           health_risk = Health_Risk (interactive_sample extract input s0),
           health_name = HR_labels ! nat (Health_Risk (interactive_sample extract input s0))\<rparr>"
proof -
  let ?s = "interactive_sample extract input s0"
  have a: "AQI_Level ?s \<in> {0, 1, 2, 3}" and h: "Health_Risk ?s \<in> {0, 1, 2}"
    using labelled_ranges [OF interactive_sample_labelled] by blast+
  have "label_name AQI_labels (AQI_Level ?s) = Some (AQI_labels ! nat (AQI_Level ?s))"
    using a by (auto simp: label_name_def AQI_labels_def)
  moreover have "label_name HR_labels (Health_Risk ?s) = Some (HR_labels ! nat (Health_Risk ?s))"
    using h by (auto simp: label_name_def HR_labels_def)
  ultimately show ?thesis
    by (simp add: interactive_def Let_def)
qed

lemma not_demo_append:
  assumes "isspace c"
  shows "line @ c # t \<noteq> ''demo''"
proof
  assume "line @ c # t = ''demo''"
  then have "set (line @ c # t) = set ''demo''"
    by (rule arg_cong)
  then have "c \<in> set ''demo''"
    by auto
  then show False
    using isspace_chars(7) [OF assms] by simp
qed

lemmas extract_simps =
  extract_sample_def extract_double_def extract_int_def isspace_def isdigit_def
  digit_val_def digits_val_def scale10_def

text \<open>
  C8, as the code has it. Let the line the program reads (the second line when the
  first is empty) be other than \<^verbatim>\<open>demo\<close>. When the stream extraction of the nine
  values from it fails, the program does not fail: it goes on with the demo sample and
  prints the same prediction as for \<^verbatim>\<open>demo\<close>, level 1 (Moderate) and risk 1 (Medium).
  When the extraction succeeds, the program labels the extracted sample with the two
  rule functions and prints those labels with their names. Both hold whatever the
  extraction is. With the extraction of the C++ library, every line without a digit
  (the empty line, or any text without a number) fails the extraction and gets the
  demo's prediction; and a line on which the extraction succeeds still gives the same
  sample, and so the same prediction, when white space and any further text are
  appended to it: what follows the ninth value is never read, and a line with more
  than nine fields is classified by its first nine values.
\<close>

theorem extraction_failure_gives_demo:
  "(read_input_line input \<noteq> ''demo'' \<and> extract (read_input_line input) s0 = None \<longrightarrow>
      interactive_sample extract input s0 = label_sample (demo_sample s0) \<and>
      interactive extract input s0 = interactive extract [''demo''] s0 \<and>
      interactive extract input s0 =
        Some \<lparr>aqi_level = 1, aqi_name = ''Moderate'', health_risk = 1,
              health_name = ''Medium''\<rparr>) \<and>
   (read_input_line input \<noteq> ''demo'' \<and> extract (read_input_line input) s0 = Some s' \<longrightarrow>
      interactive_sample extract input s0 = label_sample s' \<and>
      interactive extract input s0 =
        Some \<lparr>aqi_level = compute_aqi_level s',
              aqi_name = AQI_labels ! nat (compute_aqi_level s'),
              health_risk = compute_health_risk (s'\<lparr>AQI_Level := compute_aqi_level s'\<rparr>),
              health_name =
                HR_labels ! nat (compute_health_risk (s'\<lparr>AQI_Level := compute_aqi_level s'\<rparr>))\<rparr>) \<and>
   ((\<forall>c \<in> set (read_input_line input). \<not> isdigit c) \<longrightarrow>
      interactive extract_sample input s0 =
        Some \<lparr>aqi_level = 1, aqi_name = ''Moderate'', health_risk = 1,
              health_name = ''Medium''\<rparr>) \<and>
   (isspace c \<and> extract_sample line s0 = Some s' \<and> read_input_line input = line @ c # t \<longrightarrow>
      extract_sample (read_input_line input) s0 = Some s' \<and>
      interactive_sample extract_sample input s0 = label_sample s' \<and>
      interactive extract_sample input s0 = interactive extract_sample [line] s0)"
proof -
  have demo: "interactive extract [''demo''] s0 =
      Some \<lparr>aqi_level = 1, aqi_name = ''Moderate'', health_risk = 1, health_name = ''Medium''\<rparr>"
    by (rule interactive_demo [OF interactive_sample_demo_line])
  have a: "interactive_sample extract input s0 = label_sample (demo_sample s0) \<and>
      interactive extract input s0 = interactive extract [''demo''] s0 \<and>
      interactive extract input s0 =
        Some \<lparr>aqi_level = 1, aqi_name = ''Moderate'', health_risk = 1,
              health_name = ''Medium''\<rparr>"
    if "extract (read_input_line input) s0 = None"
  proof -
    have s: "interactive_sample extract input s0 = label_sample (demo_sample s0)"
      using that by (rule interactive_sample_fallback)
    show ?thesis
      using s interactive_demo [OF s] demo by simp
  qed
  have b: "interactive_sample extract input s0 = label_sample s' \<and>
      interactive extract input s0 =
        Some \<lparr>aqi_level = compute_aqi_level s',
              aqi_name = AQI_labels ! nat (compute_aqi_level s'),
              health_risk = compute_health_risk (s'\<lparr>AQI_Level := compute_aqi_level s'\<rparr>),
              health_name =
                HR_labels ! nat (compute_health_risk (s'\<lparr>AQI_Level := compute_aqi_level s'\<rparr>))\<rparr>"
    if "read_input_line input \<noteq> ''demo''" and "extract (read_input_line input) s0 = Some s'"
  proof -
    have s: "interactive_sample extract input s0 = label_sample s'"
      using that by (rule interactive_sample_accepted)
    show ?thesis
      using interactive_names [of "extract" input s0] unfolding s
      by (simp add: label_sample_def Let_def)
  qed
  have c: "interactive extract_sample input s0 =
        Some \<lparr>aqi_level = 1, aqi_name = ''Moderate'', health_risk = 1,
              health_name = ''Medium''\<rparr>"
    if "\<forall>c \<in> set (read_input_line input). \<not> isdigit c"
  proof -
    have "extract_sample (read_input_line input) s0 = None"
      using that by (rule extract_sample_no_digit)
    then have "interactive_sample extract_sample input s0 = label_sample (demo_sample s0)"
      by (rule interactive_sample_fallback)
    then show ?thesis
      by (rule interactive_demo)
  qed
  have d: "extract_sample (read_input_line input) s0 = Some s' \<and>
      interactive_sample extract_sample input s0 = label_sample s' \<and>
      interactive extract_sample input s0 = interactive extract_sample [line] s0"
    if sp: "isspace c" and e: "extract_sample line s0 = Some s'"
      and r: "read_input_line input = line @ c # t"
  proof -
    have e': "extract_sample (read_input_line input) s0 = Some s'"
      unfolding r using sp e by (rule extract_sample_append)
    have n: "read_input_line input \<noteq> ''demo''"
      unfolding r using sp by (rule not_demo_append)
    have s: "interactive_sample extract_sample input s0 = label_sample s'"
      using n e' by (rule interactive_sample_accepted)
    have "line \<noteq> ''demo''"
    proof
      assume "line = ''demo''"
      then have "extract_sample line s0 = None"
        by (simp add: extract_sample_no_digit isdigit_def)
      then show False
        using e by simp
    qed
    then have "interactive_sample extract_sample [line] s0 = label_sample s'"
      using e by (simp add: interactive_sample_accepted)
    then have "interactive extract_sample input s0 = interactive extract_sample [line] s0"
      using s by (simp add: interactive_def)
    then show ?thesis
      using e' s by simp
  qed
  show ?thesis
    using a b c d by blast
qed

theorem extraction_failure_gives_demo_witness:
  "extract_sample [] zero_sample = None \<and>
   interactive extract_sample [[]] zero_sample =
     Some \<lparr>aqi_level = 1, aqi_name = ''Moderate'', health_risk = 1, health_name = ''Medium''\<rparr> \<and>
   extract_sample ''20 40 400 10 20'' zero_sample = None \<and>
   interactive extract_sample [''20 40 400 10 20''] zero_sample =
     Some \<lparr>aqi_level = 1, aqi_name = ''Moderate'', health_risk = 1, health_name = ''Medium''\<rparr> \<and>
   extract_sample ''20 40 400 10 20 x 7 2 0'' zero_sample = None \<and>
   interactive extract_sample [''20 40 400 10 20 x 7 2 0''] zero_sample =
     Some \<lparr>aqi_level = 1, aqi_name = ''Moderate'', health_risk = 1, health_name = ''Medium''\<rparr> \<and>
   interactive extract_sample [[], ''no numbers here''] zero_sample =
     Some \<lparr>aqi_level = 1, aqi_name = ''Moderate'', health_risk = 1, health_name = ''Medium''\<rparr> \<and>
   extract_sample ''30 50 400 300 300 100 100 2 1'' zero_sample =
     Some (zero_sample\<lparr>Temperature := 30, Humidity := 50, CO2 := 400, PM2_5 := 300,
             PM10 := 300, NO2 := 100, O3 := 100, WindSpeed := 2, CityType := 1\<rparr>) \<and>
   interactive extract_sample [''30 50 400 300 300 100 100 2 1''] zero_sample =
     Some \<lparr>aqi_level = 2, aqi_name = ''Unhealthy'', health_risk = 2, health_name = ''High''\<rparr> \<and>
   interactive extract_sample [''30 50 400 300 300 100 100 2 1 and more''] zero_sample =
     Some \<lparr>aqi_level = 2, aqi_name = ''Unhealthy'', health_risk = 2, health_name = ''High''\<rparr>"
proof -
  let ?s = "zero_sample\<lparr>Temperature := 30, Humidity := 50, CO2 := 400, PM2_5 := 300,
             PM10 := 300, NO2 := 100, O3 := 100, WindSpeed := 2, CityType := 1\<rparr>"
  have e1: "extract_sample [] zero_sample = None"
    by (simp add: extract_simps)
  have e2: "extract_sample ''20 40 400 10 20'' zero_sample = None"
    by (simp add: extract_simps)
  have e3: "extract_sample ''20 40 400 10 20 x 7 2 0'' zero_sample = None"
    by (simp add: extract_simps)
  have e5: "extract_sample ''30 50 400 300 300 100 100 2 1'' zero_sample = Some ?s"
    by (simp add: extract_simps)
  have n1: "[] \<noteq> ''demo''" and n2: "''20 40 400 10 20'' \<noteq> ''demo''"
    and n3: "''20 40 400 10 20 x 7 2 0'' \<noteq> ''demo''"
    and n5: "''30 50 400 300 300 100 100 2 1'' \<noteq> ''demo''"
    by simp_all
  have r1: "interactive extract_sample [[]] zero_sample =
     Some \<lparr>aqi_level = 1, aqi_name = ''Moderate'', health_risk = 1, health_name = ''Medium''\<rparr>"
    using extraction_failure_gives_demo [of "[[]]" extract_sample zero_sample] n1 e1
    unfolding read_input_line_single by blast
  have r2: "interactive extract_sample [''20 40 400 10 20''] zero_sample =
     Some \<lparr>aqi_level = 1, aqi_name = ''Moderate'', health_risk = 1, health_name = ''Medium''\<rparr>"
    using extraction_failure_gives_demo [of "[''20 40 400 10 20'']" extract_sample zero_sample]
      n2 e2
    unfolding read_input_line_single by blast
  have r3: "interactive extract_sample [''20 40 400 10 20 x 7 2 0''] zero_sample =
     Some \<lparr>aqi_level = 1, aqi_name = ''Moderate'', health_risk = 1, health_name = ''Medium''\<rparr>"
    using extraction_failure_gives_demo
      [of "[''20 40 400 10 20 x 7 2 0'']" extract_sample zero_sample] n3 e3
    unfolding read_input_line_single by blast
  have l4: "read_input_line [[], ''no numbers here''] = ''no numbers here''"
    by (simp add: read_input_line_def)
  have d4: "\<forall>c \<in> set ''no numbers here''. \<not> isdigit c"
    by (simp add: isdigit_def)
  have r4: "interactive extract_sample [[], ''no numbers here''] zero_sample =
     Some \<lparr>aqi_level = 1, aqi_name = ''Moderate'', health_risk = 1, health_name = ''Medium''\<rparr>"
    using extraction_failure_gives_demo [of "[[], ''no numbers here'']" extract_sample zero_sample]
      d4
    unfolding l4 by blast
  have sc: "aqi_score ?s = 165"
    by (rule aqi_score_at_nine_values) simp_all
  have lv: "compute_aqi_level ?s = 2"
    by (simp add: compute_aqi_level_def sc)
  have hr: "compute_health_risk (?s\<lparr>AQI_Level := 2\<rparr>) = 2"
    by (simp add: compute_health_risk_def)
  have nm: "AQI_labels ! nat 2 = ''Unhealthy''" "HR_labels ! nat 2 = ''High''"
    by (simp_all add: AQI_labels_def HR_labels_def)
  have "interactive extract_sample [''30 50 400 300 300 100 100 2 1''] zero_sample =
        Some \<lparr>aqi_level = compute_aqi_level ?s,
              aqi_name = AQI_labels ! nat (compute_aqi_level ?s),
              health_risk = compute_health_risk (?s\<lparr>AQI_Level := compute_aqi_level ?s\<rparr>),
              health_name =
                HR_labels ! nat (compute_health_risk (?s\<lparr>AQI_Level := compute_aqi_level ?s\<rparr>))\<rparr>"
    using extraction_failure_gives_demo
      [of "[''30 50 400 300 300 100 100 2 1'']" extract_sample zero_sample ?s] n5 e5
    unfolding read_input_line_single by blast
  then have r5: "interactive extract_sample [''30 50 400 300 300 100 100 2 1''] zero_sample =
     Some \<lparr>aqi_level = 2, aqi_name = ''Unhealthy'', health_risk = 2, health_name = ''High''\<rparr>"
    unfolding lv hr nm .
  have sp: "isspace CHR '' ''"
    by (simp add: isspace_def)
  have ap: "''30 50 400 300 300 100 100 2 1 and more'' =
      ''30 50 400 300 300 100 100 2 1'' @ CHR '' '' # ''and more''"
    by simp
  have "interactive extract_sample [''30 50 400 300 300 100 100 2 1 and more''] zero_sample =
      interactive extract_sample [''30 50 400 300 300 100 100 2 1''] zero_sample"
    using extraction_failure_gives_demo
      [of "[''30 50 400 300 300 100 100 2 1 and more'']" extract_sample zero_sample ?s
        "CHR '' ''" "''30 50 400 300 300 100 100 2 1''" "''and more''"] sp e5 ap
    unfolding read_input_line_single by blast
  then have r6: "interactive extract_sample [''30 50 400 300 300 100 100 2 1 and more'']
      zero_sample =
     Some \<lparr>aqi_level = 2, aqi_name = ''Unhealthy'', health_risk = 2, health_name = ''High''\<rparr>"
    using r5 by simp
  show ?thesis
    using e1 e2 e3 e5 r1 r2 r3 r4 r5 r6 by blast
qed

text \<open>
  C8 as the specification words it fails for a line with the wrong number of fields
  when the extra fields come last: the line below has ten fields, the extraction
  takes the first nine and succeeds, and the prediction is the one for those nine
  values, not the demo's.
\<close>

theorem ten_fields_are_not_demo:
  "length (fields ''1 2 3 4 5 6 7 8 1 9'') = 10 \<and>
   ''1 2 3 4 5 6 7 8 1 9'' \<noteq> ''demo'' \<and>
   interactive extract_sample [''1 2 3 4 5 6 7 8 1 9''] zero_sample =
     Some \<lparr>aqi_level = 0, aqi_name = ''Good'', health_risk = 0, health_name = ''Low''\<rparr> \<and>
   interactive extract_sample [''demo''] zero_sample =
     Some \<lparr>aqi_level = 1, aqi_name = ''Moderate'', health_risk = 1, health_name = ''Medium''\<rparr> \<and>
   interactive extract_sample [''1 2 3 4 5 6 7 8 1 9''] zero_sample
     \<noteq> interactive extract_sample [''demo''] zero_sample"
proof -
  have f: "length (fields ''1 2 3 4 5 6 7 8 1 9'') = 10"
    by (simp add: fields_def isspace_def)
  have e: "extract_sample ''1 2 3 4 5 6 7 8 1 9'' zero_sample =
      Some (zero_sample\<lparr>Temperature := 1, Humidity := 2, CO2 := 3, PM2_5 := 4, PM10 := 5,
              NO2 := 6, O3 := 7, WindSpeed := 8, CityType := 1\<rparr>)"
    by (simp add: extract_simps)
  have s: "interactive_sample extract_sample [''1 2 3 4 5 6 7 8 1 9''] zero_sample =
      label_sample (zero_sample\<lparr>Temperature := 1, Humidity := 2, CO2 := 3, PM2_5 := 4,
              PM10 := 5, NO2 := 6, O3 := 7, WindSpeed := 8, CityType := 1\<rparr>)"
    by (simp add: interactive_sample_def e)
  have l: "AQI_Level (label_sample (zero_sample\<lparr>Temperature := 1, Humidity := 2, CO2 := 3,
              PM2_5 := 4, PM10 := 5, NO2 := 6, O3 := 7, WindSpeed := 8, CityType := 1\<rparr>)) = 0"
    "Health_Risk (label_sample (zero_sample\<lparr>Temperature := 1, Humidity := 2, CO2 := 3,
              PM2_5 := 4, PM10 := 5, NO2 := 6, O3 := 7, WindSpeed := 8, CityType := 1\<rparr>)) = 0"
  proof -
    have "aqi_score (zero_sample\<lparr>Temperature := 1, Humidity := 2, CO2 := 3,
              PM2_5 := 4, PM10 := 5, NO2 := 6, O3 := 7, WindSpeed := 8, CityType := 1\<rparr>)
          = 1773292353277133 / 2 ^ 49"
      by (rule aqi_score_at_ten_fields) simp_all
    then show
      "AQI_Level (label_sample (zero_sample\<lparr>Temperature := 1, Humidity := 2, CO2 := 3,
              PM2_5 := 4, PM10 := 5, NO2 := 6, O3 := 7, WindSpeed := 8, CityType := 1\<rparr>)) = 0"
      "Health_Risk (label_sample (zero_sample\<lparr>Temperature := 1, Humidity := 2, CO2 := 3,
              PM2_5 := 4, PM10 := 5, NO2 := 6, O3 := 7, WindSpeed := 8, CityType := 1\<rparr>)) = 0"
      by (simp_all add: label_sample_def Let_def compute_aqi_level_def compute_health_risk_def)
  qed
  have a: "interactive extract_sample [''1 2 3 4 5 6 7 8 1 9''] zero_sample =
     Some \<lparr>aqi_level = 0, aqi_name = ''Good'', health_risk = 0, health_name = ''Low''\<rparr>"
    by (simp add: interactive_def s l label_name_values)
  have b: "interactive extract_sample [''demo''] zero_sample =
     Some \<lparr>aqi_level = 1, aqi_name = ''Moderate'', health_risk = 1, health_name = ''Medium''\<rparr>"
    by (rule interactive_demo [OF interactive_sample_demo_line])
  show ?thesis
    using f a b by simp
qed

end
